theory Spec2Isabelle
  imports Complex_Main
begin

section \<open>Values of the API: JSON, dictionaries, exceptions\<close>

text \<open>
  The handlers of \<^verbatim>\<open>api/app.py\<close> exchange JSON values with the search engine, the cache
  and the client. A Python dictionary keeps its insertion order, so it is an association
  list whose keys are distinct; \<open>dict_set\<close> is the assignment \<^verbatim>\<open>d[k] = v\<close>
  (overwrite in place, or append a new key at the end). Floating-point numbers do not
  occur in any path modelled here and are left out of \<open>json\<close>.
\<close>

datatype json =
    JNull
  | JBool bool
  | JInt int
  | JStr string
  | JList "json list"
  | JObj "(string \<times> json) list"

type_synonym 'v dict = "(string \<times> 'v) list"

fun truthy :: "json \<Rightarrow> bool" where
  "truthy JNull = False"
| "truthy (JBool b) = b"
| "truthy (JInt i) = (i \<noteq> 0)"
| "truthy (JStr s) = (s \<noteq> [])"
| "truthy (JList xs) = (xs \<noteq> [])"
| "truthy (JObj kvs) = (kvs \<noteq> [])"

definition dict_get :: "'v dict \<Rightarrow> string \<Rightarrow> 'v option" where
  "dict_get d k = map_of d k"

fun dict_set :: "'v dict \<Rightarrow> string \<Rightarrow> 'v \<Rightarrow> 'v dict" where
  "dict_set [] k v = [(k, v)]"
| "dict_set ((a, b) # d) k v = (if a = k then (a, v) # d else (a, b) # dict_set d k v)"

text \<open>
  \<open>when_str x f d\<close> is the statement \<^verbatim>\<open>if x: f(x) else: d\<close> for an optional string
  \<open>x\<close> as \<^verbatim>\<open>request.args.get\<close> returns it: \<^verbatim>\<open>None\<close> and the empty string are
  both false.
\<close>

definition when_str :: "string option \<Rightarrow> (string \<Rightarrow> 'a) \<Rightarrow> 'a \<Rightarrow> 'a" where
  "when_str x f d = (case x of None \<Rightarrow> d | Some s \<Rightarrow> if s = [] then d else f s)"

text \<open>
  Exceptions. The builtin ones are those the handlers can raise themselves;
  \<open>LibraryError name code\<close> is an exception raised inside a client library
  (Elasticsearch, Redis, Socket.IO), with its class name and its \<^verbatim>\<open>code\<close> attribute when
  it has one. \<open>exn_code\<close> is \<^verbatim>\<open>getattr(error, 'code', None)\<close>.
\<close>

datatype exn =
    ValueError string
  | ZeroDivisionError
  | KeyError string
  | TypeError
  | AttributeError
  | BadRequest
  | LibraryError string "int option"

fun exn_code :: "exn \<Rightarrow> int option" where
  "exn_code BadRequest = Some 400"
| "exn_code (LibraryError n c) = c"
| "exn_code e = None"

fun is_BadRequest :: "exn \<Rightarrow> bool" where
  "is_BadRequest BadRequest = True"
| "is_BadRequest e = False"

type_synonym response = "nat \<times> json"

definition jsonify :: "json \<Rightarrow> response" where
  "jsonify d = (200, d)"

definition error_body :: "string \<Rightarrow> json" where
  "error_body m = JObj [(''error'', JStr m)]"

section \<open>The search engine, the cache and the rest of the environment\<close>

datatype query =
    MatchAll
  | Term string string
  | Nested string query
  | Range string "string dict"
  | BoolFilter "query list"

datatype agg =
    TermsAgg string "int option"
  | NestedAgg string "(string \<times> agg) list"
  | DateHistogram string string string

record search_body =
  sb_query :: "query option"
  sb_size :: int
  sb_from :: "int option"
  sb_sort :: "(string \<times> string) list"
  sb_aggs :: "(string \<times> agg) list"

record hit =
  h_id :: string
  h_source :: "json dict"

datatype aggnode =
    Buckets "json dict list"
  | SubAggs "(string \<times> aggnode) list"

record es_response =
  r_hits :: "hit list"
  r_total :: int
  r_aggregations :: "(string \<times> aggnode) list"

record index_result =
  res_id :: string
  res_index :: string

text \<open>
  The Elasticsearch client is a black box: a call answers or raises. The Redis client
  holds the stored entries (time to live and payload; expiry is not modelled, and
  \<^verbatim>\<open>json.loads (json.dumps d)\<close> is taken to be \<open>d\<close>); when \<open>r_raises\<close> is set every call
  on it raises that exception.
\<close>

record es_client =
  es_search :: "string \<Rightarrow> search_body \<Rightarrow> exn + es_response"
  es_index :: "string \<Rightarrow> json \<Rightarrow> exn + index_result"

record redis =
  r_store :: "(int \<times> json) dict"
  r_raises :: "exn option"

datatype effect =
    ESSearch string search_body
  | ESIndex string json
  | CacheGet string
  | CacheSetex string int json
  | CacheKeys string
  | CacheDelete "string list"
  | SocketEmit string json

text \<open>
  The world of a request: the two module-level connection handles (\<^verbatim>\<open>None\<close> when not
  initialised), the configuration values read by the handlers, the interpreter and
  library functions the handlers call (\<^verbatim>\<open>int\<close>, \<^verbatim>\<open>hash\<close>, \<^verbatim>\<open>str\<close> of an exception,
  the clock and its formatting, \<^verbatim>\<open>uuid4\<close>, the behaviour of \<^verbatim>\<open>socketio.emit\<close>), the
  events delivered so far and the trace of calls made to the outside, in order.
  One request reads the clock once (\<open>utcnow\<close>, in microseconds).
\<close>

record world =
  es :: "es_client option"
  redis_client :: "redis option"
  max_page_size :: int
  cache_ttl :: int
  py_int :: "string \<Rightarrow> int option"
  py_hash :: "string \<Rightarrow> int"
  exn_text :: "exn \<Rightarrow> string"
  utcnow :: int
  isoformat :: "int \<Rightarrow> string"
  strftime_ymd :: "int \<Rightarrow> string"
  uuid4 :: string
  emit_raises :: "exn option"
  emitted :: "json list"
  trace :: "effect list"

record request =
  args :: "(string \<times> string) list"
  data :: string
  json_body :: "json option"

definition ES_INDEX_PREFIX :: string where
  "ES_INDEX_PREFIX = ''parsedmarc-aggregate''"

definition log_effect :: "effect \<Rightarrow> world \<Rightarrow> world" where
  "log_effect x w = w\<lparr>trace := trace w @ [x]\<rparr>"

definition args_get :: "(string \<times> string) list \<Rightarrow> string \<Rightarrow> string option" where
  "args_get a k = map_of a k"

fun to_dict :: "(string \<times> string) list \<Rightarrow> string dict" where
  "to_dict [] = []"
| "to_dict ((k, v) # a) = (k, v) # to_dict (filter (\<lambda>p. fst p \<noteq> k) a)"

definition unavailable :: response where
  "unavailable = (503, error_body ''Elasticsearch not available'')"

definition error_500 :: "world \<Rightarrow> exn \<Rightarrow> response" where
  "error_500 w e = (500, error_body (exn_text w e))"

definition arg_int :: "world \<Rightarrow> (string \<times> string) list \<Rightarrow> string \<Rightarrow> int \<Rightarrow> exn + int" where
  "arg_int w a k dflt =
     (case args_get a k of
        None \<Rightarrow> Inr dflt
      | Some s \<Rightarrow> (case py_int w s of None \<Rightarrow> Inl (ValueError s) | Some n \<Rightarrow> Inr n))"

section \<open>Helper functions\<close>

subsection \<open>Cache keys\<close>

text \<open>
  \<^verbatim>\<open>get_cache_key\<close> formats \<^verbatim>\<open>f"api:{endpoint}:{hash(str(params))}"\<close>. \<open>str_int\<close> is
  \<^verbatim>\<open>str\<close> on an integer, \<open>py_repr\<close> is \<^verbatim>\<open>repr\<close> on a string and \<open>str_dict\<close> is
  \<^verbatim>\<open>str\<close> on a dictionary of strings, which lists the items in insertion order. A
  character of a parameter string is a code point below 256. \<^verbatim>\<open>repr\<close> quotes with a
  double quote when the string holds a single quote and no double quote, and with a
  single quote otherwise; it escapes the backslash, the chosen quote, tab, newline and
  carriage return, and writes every other character that is not printable as
  \<^verbatim>\<open>\xhh\<close>: below 256 these are the control characters 0 to 31 and 127 to 159, the
  no-break space 160 and the soft hyphen 173. The hash itself is the interpreter's,
  seeded anew in every process.
\<close>

definition digit_char :: "nat \<Rightarrow> char" where
  "digit_char d = char_of (48 + d)"

function nat_digits :: "nat \<Rightarrow> string" where
  "nat_digits n = (if n < 10 then [digit_char n] else nat_digits (n div 10) @ [digit_char (n mod 10)])"
  by pat_completeness auto
termination
  by (relation "measure id") auto

declare nat_digits.simps [simp del]

definition str_int :: "int \<Rightarrow> string" where
  "str_int i = (if i < 0 then CHR ''-'' # nat_digits (nat (- i)) else nat_digits (nat i))"

definition squote :: char where "squote = CHR 0x27"
definition dquote :: char where "dquote = CHR 0x22"
definition bslash :: char where "bslash = CHR 0x5C"

definition hex_char :: "nat \<Rightarrow> char" where
  "hex_char d = (if d < 10 then char_of (48 + d) else char_of (87 + d))"

definition printable :: "char \<Rightarrow> bool" where
  "printable c =
     (let n = (of_char c :: nat) in \<not> (n < 32 \<or> (127 \<le> n \<and> n \<le> 160) \<or> n = 173))"

definition repr_char :: "char \<Rightarrow> char \<Rightarrow> string" where
  "repr_char q c =
     (if c = bslash then [bslash, bslash]
      else if c = q then [bslash, q]
      else if c = CHR 0x09 then [bslash, CHR ''t'']
      else if c = CHR 0x0A then [bslash, CHR ''n'']
      else if c = CHR 0x0D then [bslash, CHR ''r'']
      else if \<not> printable c
        then [bslash, CHR ''x'', hex_char (of_char c div 16), hex_char (of_char c mod 16)]
      else [c])"

definition py_repr :: "string \<Rightarrow> string" where
  "py_repr s =
     (let q = (if squote \<in> set s \<and> dquote \<notin> set s then dquote else squote)
      in q # concat (map (repr_char q) s) @ [q])"

fun join :: "string \<Rightarrow> string list \<Rightarrow> string" where
  "join sep [] = []"
| "join sep [x] = x"
| "join sep (x # y # ys) = x @ sep @ join sep (y # ys)"

definition str_item :: "string \<times> string \<Rightarrow> string" where
  "str_item p = py_repr (fst p) @ '': '' @ py_repr (snd p)"

definition str_dict :: "string dict \<Rightarrow> string" where
  "str_dict d = ''{'' @ join '', '' (map str_item d) @ ''}''"

definition get_cache_key :: "world \<Rightarrow> string \<Rightarrow> string dict \<Rightarrow> string" where
  "get_cache_key w endpoint params = ''api:'' @ endpoint @ '':'' @ str_int (py_hash w (str_dict params))"

subsection \<open>The cache gateway\<close>

text \<open>
  Both helpers catch every exception of the Redis call and only log it; the model logs
  the attempted call in the trace. \<^verbatim>\<open>cache_response\<close> is always called with the default
  time to live.
\<close>

definition cache_response :: "world \<Rightarrow> string \<Rightarrow> json \<Rightarrow> world" where
  "cache_response w key d =
     (case redis_client w of
        None \<Rightarrow> w
      | Some r \<Rightarrow>
          (let w1 = log_effect (CacheSetex key (cache_ttl w) d) w in
           case r_raises r of
             Some e \<Rightarrow> w1
           | None \<Rightarrow> w1\<lparr>redis_client := Some (r\<lparr>r_store := dict_set (r_store r) key (cache_ttl w, d)\<rparr>)\<rparr>))"

definition get_cached_response :: "world \<Rightarrow> string \<Rightarrow> json option \<times> world" where
  "get_cached_response w key =
     (case redis_client w of
        None \<Rightarrow> (None, w)
      | Some r \<Rightarrow>
          (let w1 = log_effect (CacheGet key) w in
           case r_raises r of
             Some e \<Rightarrow> (None, w1)
           | None \<Rightarrow> (case dict_get (r_store r) key of
                        None \<Rightarrow> (None, w1)
                      | Some (ttl, d) \<Rightarrow> (Some d, w1))))"

subsection \<open>Live updates\<close>

definition emit_live_update :: "world \<Rightarrow> string \<Rightarrow> json \<Rightarrow> world" where
  "emit_live_update w event_type d =
     (let ev = JObj [(''type'', JStr event_type), (''data'', d),
                     (''timestamp'', JStr (isoformat w (utcnow w)))];
          w1 = log_effect (SocketEmit ''live_update'' ev) w
      in case emit_raises w of
           None \<Rightarrow> w1\<lparr>emitted := emitted w1 @ [ev]\<rparr>
         | Some e \<Rightarrow> w1)"

subsection \<open>Errors that leave a handler\<close>

text \<open>
  An exception that leaves a view function is answered by \<^verbatim>\<open>handle_all_exceptions\<close>,
  the handler registered for \<^verbatim>\<open>Exception\<close>.
\<close>

definition handle_all_exceptions :: "exn \<Rightarrow> response" where
  "handle_all_exceptions error =
     (if is_BadRequest error \<or> exn_code error = Some 400
      then (400, error_body ''Invalid or malformed JSON'')
      else (500, error_body ''Internal server error''))"

section \<open>Query building\<close>

definition truthy_str :: "string option \<Rightarrow> bool" where
  "truthy_str x = when_str x (\<lambda>s. True) False"

text \<open>
  The filter list of \<^verbatim>\<open>get_reports\<close>, appended to in the order of the source, and the
  query made of it.
\<close>

definition reports_filters :: "(string \<times> string) list \<Rightarrow> query list" where
  "reports_filters a =
     (let org_name = args_get a ''org_name'';
          domain = args_get a ''domain'';
          disposition = args_get a ''disposition'';
          date_from = args_get a ''date_from'';
          date_to = args_get a ''date_to'';
          f0 = [];
          f1 = when_str org_name (\<lambda>s. f0 @ [Term ''org_name.keyword'' s]) f0;
          f2 = when_str domain (\<lambda>s. f1 @ [Term ''policy_published.domain.keyword'' s]) f1;
          f3 = when_str disposition
                 (\<lambda>s. f2 @ [Nested ''records''
                              (Term ''records.policy_evaluated.disposition.keyword'' s)]) f2
      in if truthy_str date_from \<or> truthy_str date_to
         then (let r0 = [];
                   r1 = when_str date_from (\<lambda>s. dict_set r0 ''gte'' s) r0;
                   r2 = when_str date_to (\<lambda>s. dict_set r1 ''lte'' s) r1
               in f3 @ [Range ''@timestamp'' r2])
         else f3)"

definition reports_query :: "(string \<times> string) list \<Rightarrow> query" where
  "reports_query a =
     (let filters = reports_filters a
      in if filters \<noteq> [] then BoolFilter filters else MatchAll)"

text \<open>
  The parameters and the search body of \<^verbatim>\<open>get_reports\<close>: page, size (after the clamp)
  and the body passed to \<^verbatim>\<open>es.search\<close>. \<^verbatim>\<open>int\<close> raises on a malformed number.
\<close>

definition reports_body :: "query \<Rightarrow> int \<Rightarrow> int \<Rightarrow> search_body" where
  "reports_body q n from_index =
     \<lparr>sb_query = Some q, sb_size = n, sb_from = Some from_index,
      sb_sort = [(''@timestamp'', ''desc'')], sb_aggs = []\<rparr>"

definition reports_search_body ::
  "world \<Rightarrow> (string \<times> string) list \<Rightarrow> exn + (int \<times> int \<times> search_body)" where
  "reports_search_body w a =
     (case arg_int w a ''page'' 1 of
        Inl e \<Rightarrow> Inl e
      | Inr page \<Rightarrow>
          (case arg_int w a ''size'' 20 of
             Inl e \<Rightarrow> Inl e
           | Inr sz \<Rightarrow>
               (let size = min sz (max_page_size w);
                    query = reports_query a;
                    from_index = (page - 1) * size
                in Inr (page, size, reports_body query size from_index))))"

text \<open>
  The date range of \<^verbatim>\<open>get_timeline_data\<close>. The \<^verbatim>\<open>else\<close> of the source belongs to
  \<^verbatim>\<open>if date_to\<close>.
\<close>

definition days :: "int \<Rightarrow> int" where
  "days n = n * 86400 * 1000000"

definition timeline_date_range :: "world \<Rightarrow> string option \<Rightarrow> string option \<Rightarrow> string dict" where
  "timeline_date_range w date_from date_to =
     (let r0 = [];
          r1 = when_str date_from (\<lambda>s. dict_set r0 ''gte'' s) r0
      in when_str date_to (\<lambda>s. dict_set r1 ''lte'' s)
           (dict_set r1 ''gte'' (isoformat w (utcnow w - days 30))))"

definition timeline_search_body :: "world \<Rightarrow> (string \<times> string) list \<Rightarrow> search_body" where
  "timeline_search_body w a =
     (let interval = (case args_get a ''interval'' of None \<Rightarrow> ''day'' | Some s \<Rightarrow> s);
          date_range = timeline_date_range w (args_get a ''date_from'') (args_get a ''date_to'');
          query = (if date_range \<noteq> [] then Range ''@timestamp'' date_range else MatchAll)
      in \<lparr>sb_query = Some query, sb_size = 0, sb_from = None, sb_sort = [],
          sb_aggs = [(''timeline'', DateHistogram ''@timestamp'' interval ''yyyy-MM-dd'')]\<rparr>)"

section \<open>Reading a search response\<close>

definition subscript :: "'v dict \<Rightarrow> string \<Rightarrow> exn + 'v" where
  "subscript d k = (case dict_get d k of None \<Rightarrow> Inl (KeyError k) | Some v \<Rightarrow> Inr v)"

definition agg_buckets :: "aggnode \<Rightarrow> exn + json dict list" where
  "agg_buckets n = (case n of Buckets bs \<Rightarrow> Inr bs | SubAggs subs \<Rightarrow> Inl (KeyError ''buckets''))"

definition agg_child :: "aggnode \<Rightarrow> string \<Rightarrow> exn + aggnode" where
  "agg_child n k = (case n of SubAggs subs \<Rightarrow> subscript subs k | Buckets bs \<Rightarrow> Inl (KeyError k))"

fun shape_bucket :: "(string \<times> string) list \<Rightarrow> json dict \<Rightarrow> exn + json dict" where
  "shape_bucket [] b = Inr []"
| "shape_bucket ((out, k) # fs) b =
     (case subscript b k of
        Inl e \<Rightarrow> Inl e
      | Inr v \<Rightarrow> (case shape_bucket fs b of Inl e \<Rightarrow> Inl e | Inr r \<Rightarrow> Inr ((out, v) # r)))"

fun shape_buckets :: "(string \<times> string) list \<Rightarrow> json dict list \<Rightarrow> exn + json list" where
  "shape_buckets fs [] = Inr []"
| "shape_buckets fs (b # bs) =
     (case shape_bucket fs b of
        Inl e \<Rightarrow> Inl e
      | Inr x \<Rightarrow> (case shape_buckets fs bs of Inl e \<Rightarrow> Inl e | Inr r \<Rightarrow> Inr (JObj x # r)))"

definition format_report :: "hit \<Rightarrow> json" where
  "format_report h = JObj (dict_set (h_source h) ''_id'' (JStr (h_id h)))"

section \<open>The read and aggregation handlers\<close>

definition index_pattern :: string where
  "index_pattern = ES_INDEX_PREFIX @ ''-*''"

definition get_reports :: "world \<Rightarrow> request \<Rightarrow> response \<times> world" where
  "get_reports w req =
     (case es w of
        None \<Rightarrow> (unavailable, w)
      | Some client \<Rightarrow>
          (case reports_search_body w (args req) of
             Inl e \<Rightarrow> (error_500 w e, w)
           | Inr (page, sz, body) \<Rightarrow>
               (let w1 = log_effect (ESSearch index_pattern body) w
                in case es_search client index_pattern body of
                     Inl e \<Rightarrow> (error_500 w e, w1)
                   | Inr resp \<Rightarrow>
                       (let reports = map format_report (r_hits resp)
                        in if sz = 0 then (error_500 w ZeroDivisionError, w1)
                           else (jsonify (JObj
                                   [(''reports'', JList reports),
                                    (''total'', JInt (r_total resp)),
                                    (''page'', JInt page),
                                    (''size'', JInt sz),
                                    (''pages'', JInt ((r_total resp + sz - 1) div sz))]),
                                 w1)))))"

definition top_orgs_body :: "int \<Rightarrow> search_body" where
  "top_orgs_body n =
     \<lparr>sb_query = None, sb_size = 0, sb_from = None, sb_sort = [],
      sb_aggs = [(''top_organizations'', TermsAgg ''org_name.keyword'' (Some n))]\<rparr>"

definition shape_organizations :: "es_response \<Rightarrow> exn + json" where
  "shape_organizations resp =
     (case subscript (r_aggregations resp) ''top_organizations'' of
        Inl e \<Rightarrow> Inl e
      | Inr n \<Rightarrow>
          (case agg_buckets n of
             Inl e \<Rightarrow> Inl e
           | Inr bs \<Rightarrow>
               (case shape_buckets [(''organization'', ''key''), (''reports'', ''doc_count'')] bs of
                  Inl e \<Rightarrow> Inl e
                | Inr organizations \<Rightarrow> Inr (JObj [(''organizations'', JList organizations)]))))"

definition get_top_organizations :: "world \<Rightarrow> request \<Rightarrow> response \<times> world" where
  "get_top_organizations w req =
     (case es w of
        None \<Rightarrow> (unavailable, w)
      | Some client \<Rightarrow>
          (let cache_key = get_cache_key w ''top_orgs'' (to_dict (args req));
               (cached, w1) = get_cached_response w cache_key
           in if (case cached of None \<Rightarrow> False | Some c \<Rightarrow> truthy c)
              then (jsonify (case cached of Some c \<Rightarrow> c | None \<Rightarrow> JNull), w1)
              else (case arg_int w (args req) ''size'' 10 of
                      Inl e \<Rightarrow> (error_500 w e, w1)
                    | Inr n \<Rightarrow>
                        (let w2 = log_effect (ESSearch index_pattern (top_orgs_body n)) w1
                         in case es_search client index_pattern (top_orgs_body n) of
                              Inl e \<Rightarrow> (error_500 w e, w2)
                            | Inr resp \<Rightarrow>
                                (case shape_organizations resp of
                                   Inl e \<Rightarrow> (error_500 w e, w2)
                                 | Inr result \<Rightarrow>
                                     (jsonify result, cache_response w2 cache_key result))))))"

definition dispositions_body :: search_body where
  "dispositions_body =
     \<lparr>sb_query = None, sb_size = 0, sb_from = None, sb_sort = [],
      sb_aggs = [(''dispositions'', NestedAgg ''records''
                   [(''disposition_breakdown'',
                     TermsAgg ''records.policy_evaluated.disposition.keyword'' None)])]\<rparr>"

definition shape_dispositions :: "es_response \<Rightarrow> exn + json" where
  "shape_dispositions resp =
     (case subscript (r_aggregations resp) ''dispositions'' of
        Inl e \<Rightarrow> Inl e
      | Inr n \<Rightarrow>
          (case agg_child n ''disposition_breakdown'' of
             Inl e \<Rightarrow> Inl e
           | Inr m \<Rightarrow>
               (case agg_buckets m of
                  Inl e \<Rightarrow> Inl e
                | Inr bs \<Rightarrow>
                    (case shape_buckets [(''disposition'', ''key''), (''count'', ''doc_count'')] bs of
                       Inl e \<Rightarrow> Inl e
                     | Inr dispositions \<Rightarrow> Inr (JObj [(''dispositions'', JList dispositions)])))))"

definition get_disposition_stats :: "world \<Rightarrow> request \<Rightarrow> response \<times> world" where
  "get_disposition_stats w req =
     (case es w of
        None \<Rightarrow> (unavailable, w)
      | Some client \<Rightarrow>
          (let cache_key = get_cache_key w ''dispositions'' [];
               (cached, w1) = get_cached_response w cache_key
           in if (case cached of None \<Rightarrow> False | Some c \<Rightarrow> truthy c)
              then (jsonify (case cached of Some c \<Rightarrow> c | None \<Rightarrow> JNull), w1)
              else (let w2 = log_effect (ESSearch index_pattern dispositions_body) w1
                    in case es_search client index_pattern dispositions_body of
                         Inl e \<Rightarrow> (error_500 w e, w2)
                       | Inr resp \<Rightarrow>
                           (case shape_dispositions resp of
                              Inl e \<Rightarrow> (error_500 w e, w2)
                            | Inr result \<Rightarrow>
                                (jsonify result, cache_response w2 cache_key result)))))"

definition shape_timeline :: "es_response \<Rightarrow> exn + json" where
  "shape_timeline resp =
     (case subscript (r_aggregations resp) ''timeline'' of
        Inl e \<Rightarrow> Inl e
      | Inr n \<Rightarrow>
          (case agg_buckets n of
             Inl e \<Rightarrow> Inl e
           | Inr bs \<Rightarrow>
               (case shape_buckets [(''date'', ''key_as_string''), (''count'', ''doc_count'')] bs of
                  Inl e \<Rightarrow> Inl e
                | Inr timeline \<Rightarrow> Inr (JObj [(''timeline'', JList timeline)]))))"

definition get_timeline_data :: "world \<Rightarrow> request \<Rightarrow> response \<times> world" where
  "get_timeline_data w req =
     (case es w of
        None \<Rightarrow> (unavailable, w)
      | Some client \<Rightarrow>
          (let body = timeline_search_body w (args req);
               w1 = log_effect (ESSearch index_pattern body) w
           in case es_search client index_pattern body of
                Inl e \<Rightarrow> (error_500 w e, w1)
              | Inr resp \<Rightarrow>
                  (case shape_timeline resp of
                     Inl e \<Rightarrow> (error_500 w e, w1)
                   | Inr result \<Rightarrow> (jsonify result, w1))))"

section \<open>Report ingestion\<close>

definition bytes_strip :: "string \<Rightarrow> string" where
  "bytes_strip s =
     (let ws = (\<lambda>c. c \<in> set [CHR 0x09, CHR 0x0A, CHR 0x0B, CHR 0x0C, CHR 0x0D, CHR 0x20])
      in rev (dropWhile ws (rev (dropWhile ws s))))"

text \<open>
  The block \<^verbatim>\<open># Clear relevant caches\<close> of \<^verbatim>\<open>process_report\<close>. It is not guarded: an
  exception of the Redis client leaves the handler.
\<close>

definition clear_caches :: "world \<Rightarrow> exn option \<times> world" where
  "clear_caches w =
     (case redis_client w of
        None \<Rightarrow> (None, w)
      | Some r \<Rightarrow>
          (let w1 = log_effect (CacheKeys ''api:*'') w
           in case r_raises r of
                Some e \<Rightarrow> (Some e, w1)
              | None \<Rightarrow>
                  (let keys = filter (\<lambda>k. take 4 k = ''api:'') (map fst (r_store r))
                   in if keys \<noteq> []
                      then (None, (log_effect (CacheDelete keys) w1)
                              \<lparr>redis_client :=
                                 Some (r\<lparr>r_store := filter (\<lambda>p. fst p \<notin> set keys) (r_store r)\<rparr>)\<rparr>)
                      else (None, w1))))"

text \<open>
  \<^verbatim>\<open>data.get('policy_published', {}).get('domain')\<close>: the second \<^verbatim>\<open>get\<close> exists only on
  a dictionary.
\<close>

definition report_domain :: "json dict \<Rightarrow> exn + json" where
  "report_domain d =
     (case dict_get d ''policy_published'' of
        None \<Rightarrow> Inr JNull
      | Some (JObj p) \<Rightarrow> Inr (case dict_get p ''domain'' of None \<Rightarrow> JNull | Some v \<Rightarrow> v)
      | Some other \<Rightarrow> Inl AttributeError)"

definition stamp :: "world \<Rightarrow> json dict \<Rightarrow> json dict" where
  "stamp w d =
     dict_set (dict_set (dict_set d ''@timestamp'' (JStr (isoformat w (utcnow w))))
                 ''processed_by'' (JStr ''dmarc-api''))
       ''processing_id'' (JStr (uuid4 w))"

definition success_body :: "index_result \<Rightarrow> json" where
  "success_body result =
     JObj [(''success'', JBool True), (''id'', JStr (res_id result)),
           (''index'', JStr (res_index result))]"

definition index_name :: "world \<Rightarrow> string" where
  "index_name w = ES_INDEX_PREFIX @ ''-'' @ strftime_ymd w (utcnow w)"

definition process_report :: "world \<Rightarrow> request \<Rightarrow> response \<times> world" where
  "process_report w req =
     (case es w of
        None \<Rightarrow> (unavailable, w)
      | Some client \<Rightarrow>
          if data req = [] \<or> bytes_strip (data req) = []
          then ((400, error_body ''No data provided''), w)
          else (case json_body req of
                  None \<Rightarrow> ((400, error_body ''Invalid or empty JSON''), w)
                | Some body \<Rightarrow>
                    if \<not> truthy body then ((400, error_body ''No data provided''), w)
                    else (case body of
                            JObj kvs \<Rightarrow>
                              (let d = stamp w kvs;
                                   idx = index_name w;
                                   w1 = log_effect (ESIndex idx (JObj d)) w
                               in case es_index client idx (JObj d) of
                                    Inl e \<Rightarrow> (handle_all_exceptions e, w1)
                                  | Inr result \<Rightarrow>
                                      (case clear_caches w1 of
                                         (Some e, w2) \<Rightarrow> (handle_all_exceptions e, w2)
                                       | (None, w2) \<Rightarrow>
                                           (case report_domain d of
                                              Inl e \<Rightarrow> (handle_all_exceptions e, w2)
                                            | Inr dm \<Rightarrow>
                                                (jsonify (success_body result),
                                                 emit_live_update w2 ''new_report''
                                                   (JObj [(''id'', JStr (res_id result)),
                                                          (''org_name'',
                                                             (case dict_get d ''org_name'' of
                                                                None \<Rightarrow> JNull | Some v \<Rightarrow> v)),
                                                          (''domain'', dm),
                                                          (''timestamp'', JStr (isoformat w (utcnow w)))])))))
                          | other \<Rightarrow> (handle_all_exceptions TypeError, w))))"

section \<open>Vocabulary of the properties\<close>

text \<open>
  A filter parameter is present when the request carries it with a non-empty value;
  the date range is present when one of its bounds is.
\<close>

definition present :: "(string \<times> string) list \<Rightarrow> string \<Rightarrow> bool" where
  "present a k = (case args_get a k of None \<Rightarrow> False | Some s \<Rightarrow> s \<noteq> [])"

definition present_count :: "(string \<times> string) list \<Rightarrow> nat" where
  "present_count a =
     (if present a ''org_name'' then 1 else 0) + (if present a ''domain'' then 1 else 0) +
     (if present a ''disposition'' then 1 else 0) +
     (if present a ''date_from'' \<or> present a ''date_to'' then 1 else 0)"

fun is_term_on :: "string \<Rightarrow> query \<Rightarrow> bool" where
  "is_term_on f (Term g v) = (f = g)"
| "is_term_on f q = False"

fun is_nested_on :: "string \<Rightarrow> query \<Rightarrow> bool" where
  "is_nested_on p (Nested p' q) = (p = p')"
| "is_nested_on p q = False"

fun is_range_on :: "string \<Rightarrow> query \<Rightarrow> bool" where
  "is_range_on f (Range g r) = (f = g)"
| "is_range_on f q = False"

text \<open>The fields of the term clauses of a query that stand outside every nested wrapper.\<close>

fun flat_term_fields :: "query \<Rightarrow> string list" where
  "flat_term_fields MatchAll = []"
| "flat_term_fields (Term f v) = [f]"
| "flat_term_fields (Nested p q) = []"
| "flat_term_fields (Range f r) = []"
| "flat_term_fields (BoolFilter qs) = concat (map flat_term_fields qs)"

definition disposition_field :: string where
  "disposition_field = ''records.policy_evaluated.disposition.keyword''"

text \<open>Effects of ingestion other than the document write: cache flush and broadcast.\<close>

fun side_effect :: "effect \<Rightarrow> bool" where
  "side_effect (CacheKeys p) = True"
| "side_effect (CacheDelete ks) = True"
| "side_effect (SocketEmit c ev) = True"
| "side_effect x = False"

text \<open>
  The effects a request added to the trace, and the test that the first of them is
  the document write and that the search engine answered it with a result.
\<close>

definition new_effects :: "world \<Rightarrow> world \<Rightarrow> effect list" where
  "new_effects w w' = drop (length (trace w)) (trace w')"

fun write_committed :: "world \<Rightarrow> effect list \<Rightarrow> bool" where
  "write_committed w (ESIndex idx doc # rest) =
     (case es w of
        None \<Rightarrow> False
      | Some client \<Rightarrow> (case es_index client idx doc of Inl e \<Rightarrow> False | Inr result \<Rightarrow> True))"
| "write_committed w xs = False"

text \<open>
  What \<^verbatim>\<open>process_report\<close> accepts: a body that is not blank and parses to a non-empty
  JSON object.
\<close>

definition valid_ingest :: "request \<Rightarrow> json dict \<Rightarrow> bool" where
  "valid_ingest req kvs =
     (bytes_strip (data req) \<noteq> [] \<and> json_body req = Some (JObj kvs) \<and> kvs \<noteq> [])"

fun cache_effect :: "effect \<Rightarrow> bool" where
  "cache_effect (CacheGet k) = True"
| "cache_effect (CacheSetex k t d) = True"
| "cache_effect (CacheKeys p) = True"
| "cache_effect (CacheDelete ks) = True"
| "cache_effect x = False"

text \<open>The number a string of decimal digits stands for: the inverse of \<open>nat_digits\<close>.\<close>

definition digits_value :: "string \<Rightarrow> nat" where
  "digits_value s = foldl (\<lambda>n c. 10 * n + (of_char c - 48)) 0 s"

text \<open>
  Reading one character back from the front of a \<^verbatim>\<open>repr\<close>: the inverse of
  \<open>repr_char\<close>, used to show that a rendering determines the string it renders.
\<close>

definition hex_value :: "char \<Rightarrow> nat" where
  "hex_value c = (if (of_char c :: nat) < 58 then of_char c - 48 else of_char c - 87)"

fun unrepr_char :: "string \<Rightarrow> (char \<times> string) option" where
  "unrepr_char [] = None"
| "unrepr_char [a] = Some (a, [])"
| "unrepr_char (a # b # r) =
     (if a \<noteq> bslash then Some (a, b # r)
      else if b = CHR ''t'' then Some (CHR 0x09, r)
      else if b = CHR ''n'' then Some (CHR 0x0A, r)
      else if b = CHR ''r'' then Some (CHR 0x0D, r)
      else if b = CHR ''x''
        then (case r of
                h # l # r' \<Rightarrow> Some (char_of (16 * hex_value h + hex_value l), r')
              | other \<Rightarrow> None)
      else Some (b, r))"

section \<open>The test fixtures\<close>

text \<open>
  The mocks of \<^verbatim>\<open>tests/conftest.py\<close>: a search engine that answers every search with one
  fixed response and every write with one fixed result, and an empty cache. The
  interpreter functions of the test world are stand-ins (decimal literals for \<^verbatim>\<open>int\<close>,
  a polynomial hash, the class name as the text of an exception, a fixed clock); the
  theorems below hold for every world, the test world only instantiates them.
\<close>

definition is_digit :: "char \<Rightarrow> bool" where
  "is_digit c = (48 \<le> (of_char c :: nat) \<and> (of_char c :: nat) \<le> 57)"

definition dec_nat :: "string \<Rightarrow> int option" where
  "dec_nat s =
     (if s \<noteq> [] \<and> list_all is_digit s
      then Some (foldl (\<lambda>n c. 10 * n + (of_char c - 48)) 0 s) else None)"

definition dec_int :: "string \<Rightarrow> int option" where
  "dec_int s =
     (case s of
        [] \<Rightarrow> None
      | c # r \<Rightarrow> if c = CHR ''-'' then map_option uminus (dec_nat r) else dec_nat s)"

definition poly_hash :: "string \<Rightarrow> int" where
  "poly_hash s = foldl (\<lambda>h c. (31 * h + of_char c) mod 1000000007) 0 s"

fun class_name :: "exn \<Rightarrow> string" where
  "class_name (ValueError s) = ''ValueError''"
| "class_name ZeroDivisionError = ''ZeroDivisionError''"
| "class_name (KeyError k) = ''KeyError''"
| "class_name TypeError = ''TypeError''"
| "class_name AttributeError = ''AttributeError''"
| "class_name BadRequest = ''BadRequest''"
| "class_name (LibraryError n c) = n"

definition mock_search_response :: es_response where
  "mock_search_response =
     \<lparr>r_hits = [\<lparr>h_id = ''test-id-1'',
                 h_source = [(''org_name'', JStr ''Test Org''),
                             (''policy_published'', JObj [(''domain'', JStr ''example.com'')]),
                             (''@timestamp'', JStr ''2024-01-01T00:00:00Z'')]\<rparr>],
      r_total = 50,
      r_aggregations =
        [(''top_organizations'',
            Buckets [[(''key'', JStr ''Google''), (''doc_count'', JInt 100)],
                     [(''key'', JStr ''Microsoft''), (''doc_count'', JInt 80)]]),
         (''dispositions'',
            SubAggs [(''disposition_breakdown'',
              Buckets [[(''key'', JStr ''pass''), (''doc_count'', JInt 150)],
                       [(''key'', JStr ''fail''), (''doc_count'', JInt 30)]])]),
         (''timeline'',
            Buckets [[(''key_as_string'', JStr ''2024-01-01''), (''doc_count'', JInt 50)],
                     [(''key_as_string'', JStr ''2024-01-02''), (''doc_count'', JInt 75)]])]\<rparr>"

definition mock_index_result :: index_result where
  "mock_index_result = \<lparr>res_id = ''new-doc-id'', res_index = ''parsedmarc-aggregate-2024.01.01''\<rparr>"

definition mock_elasticsearch :: es_client where
  "mock_elasticsearch =
     \<lparr>es_search = (\<lambda>i b. Inr mock_search_response), es_index = (\<lambda>i d. Inr mock_index_result)\<rparr>"

definition mock_redis :: redis where
  "mock_redis = \<lparr>r_store = [], r_raises = None\<rparr>"

definition test_world :: world where
  "test_world =
     \<lparr>es = Some mock_elasticsearch, redis_client = Some mock_redis,
      max_page_size = 100, cache_ttl = 300,
      py_int = dec_int, py_hash = poly_hash, exn_text = class_name,
      utcnow = 1704067200000000, isoformat = str_int, strftime_ymd = (\<lambda>t. ''2024.01.01''),
      uuid4 = ''00000000-0000-4000-8000-000000000000'',
      emit_raises = None, emitted = [], trace = []\<rparr>"

definition get_request :: "(string \<times> string) list \<Rightarrow> request" where
  "get_request a = \<lparr>args = a, data = [], json_body = None\<rparr>"

definition test_report :: json where
  "test_report =
     JObj [(''org_name'', JStr ''Test Organization''),
           (''policy_published'', JObj [(''domain'', JStr ''test.com'')]),
           (''records'', JList [])]"

definition post_request :: "json \<Rightarrow> request" where
  "post_request d = \<lparr>args = [], data = ''{...}'', json_body = Some d\<rparr>"

definition connection_error :: exn where
  "connection_error = LibraryError ''ConnectionError'' None"

definition unreachable_elasticsearch :: es_client where
  "unreachable_elasticsearch =
     \<lparr>es_search = (\<lambda>i b. Inl connection_error), es_index = (\<lambda>i d. Inl connection_error)\<rparr>"

section \<open>Properties of the query builder\<close>


lemma present_truthy: "truthy_str (args_get a k) = present a k"
  by (simp add: truthy_str_def when_str_def present_def split: option.splits)

lemma when_str_present:
  "when_str (args_get a k) f d = (if present a k then f (the (args_get a k)) else d)"
  by (simp add: when_str_def present_def split: option.splits)

lemma reports_filters_length: "length (reports_filters a) = present_count a"
  by (simp add: reports_filters_def present_count_def Let_def when_str_present present_truthy)

lemma reports_query_cases:
  "reports_query a = (if present_count a = 0 then MatchAll else BoolFilter (reports_filters a))"
proof -
  have "reports_filters a = [] \<longleftrightarrow> present_count a = 0"
    using reports_filters_length [of a] by auto
  then show ?thesis by (simp add: reports_query_def Let_def)
qed

text \<open>
  Claim C1. For every set of filter parameters of the listing request: when no filter is
  present the query built by \<^verbatim>\<open>get_reports\<close> is the match-all query; when at least one
  is present it is the \<^verbatim>\<open>bool\<close>/\<^verbatim>\<open>filter\<close> conjunction of the built clauses, which holds
  exactly one clause for each present filter (organization, domain, disposition, date
  range) and none for an absent one. A filter is present when its parameter has a
  non-empty value, as the truth test of the source has it.
\<close>

theorem reports_query_clauses:
  "(present_count a = 0 \<longrightarrow> reports_query a = MatchAll) \<and>
   (0 < present_count a \<longrightarrow> reports_query a = BoolFilter (reports_filters a)) \<and>
   length (reports_filters a) = present_count a \<and>
   filter (is_term_on ''org_name.keyword'') (reports_filters a) =
     (if present a ''org_name'' then [Term ''org_name.keyword'' (the (args_get a ''org_name''))] else []) \<and>
   filter (is_term_on ''policy_published.domain.keyword'') (reports_filters a) =
     (if present a ''domain''
      then [Term ''policy_published.domain.keyword'' (the (args_get a ''domain''))] else []) \<and>
   filter (is_nested_on ''records'') (reports_filters a) =
     (if present a ''disposition''
      then [Nested ''records'' (Term disposition_field (the (args_get a ''disposition'')))] else []) \<and>
   length (filter (is_range_on ''@timestamp'') (reports_filters a)) =
     (if present a ''date_from'' \<or> present a ''date_to'' then 1 else 0)"
proof -
  have 1: "filter (is_term_on ''org_name.keyword'') (reports_filters a) =
     (if present a ''org_name'' then [Term ''org_name.keyword'' (the (args_get a ''org_name''))] else [])"
    by (simp add: reports_filters_def Let_def when_str_present present_truthy)
  have 2: "filter (is_term_on ''policy_published.domain.keyword'') (reports_filters a) =
     (if present a ''domain''
      then [Term ''policy_published.domain.keyword'' (the (args_get a ''domain''))] else [])"
    by (simp add: reports_filters_def Let_def when_str_present present_truthy)
  have 3: "filter (is_nested_on ''records'') (reports_filters a) =
     (if present a ''disposition''
      then [Nested ''records'' (Term disposition_field (the (args_get a ''disposition'')))] else [])"
    by (simp add: reports_filters_def Let_def when_str_present present_truthy disposition_field_def)
  have 4: "length (filter (is_range_on ''@timestamp'') (reports_filters a)) =
     (if present a ''date_from'' \<or> present a ''date_to'' then 1 else 0)"
    by (simp add: reports_filters_def Let_def when_str_present present_truthy)
  show ?thesis
    using 1 2 3 4 reports_filters_length [of a] reports_query_cases [of a] by simp
qed

theorem reports_query_clauses_witness:
  "present_count [(''org_name'', ''Google''), (''domain'', ''''), (''date_to'', ''2024-02-01'')] = 2 \<and>
   reports_query [(''org_name'', ''Google''), (''domain'', ''''), (''date_to'', ''2024-02-01'')] =
     BoolFilter [Term ''org_name.keyword'' ''Google'', Range ''@timestamp'' [(''lte'', ''2024-02-01'')]] \<and>
   present_count [] = 0 \<and> reports_query [] = MatchAll"
  using reports_query_clauses [of "[(''org_name'', ''Google''), (''domain'', ''''), (''date_to'', ''2024-02-01'')]"]
    reports_query_clauses [of "[]"]
  by (simp add: present_count_def present_def args_get_def reports_filters_def Let_def
      when_str_def truthy_str_def)

lemma flat_term_fields_reports_filters:
  "concat (map flat_term_fields (reports_filters a)) =
     (if present a ''org_name'' then [''org_name.keyword''] else []) @
     (if present a ''domain'' then [''policy_published.domain.keyword''] else [])"
  by (simp add: reports_filters_def Let_def when_str_present present_truthy)

text \<open>
  Claim C9. A disposition filter is always expressed as a nested-query wrapper on the
  path \<^verbatim>\<open>records\<close>: the built query never holds a flat term clause on the nested
  disposition field, and when the disposition filter is present the only clause about
  it is the nested wrapper around the term.
\<close>

theorem disposition_always_nested:
  "disposition_field \<notin> set (flat_term_fields (reports_query a)) \<and>
   (present a ''disposition'' \<longrightarrow>
      reports_query a = BoolFilter (reports_filters a) \<and>
      filter (\<lambda>q. is_nested_on ''records'' q \<or> is_term_on disposition_field q) (reports_filters a) =
        [Nested ''records'' (Term disposition_field (the (args_get a ''disposition'')))])"
proof -
  have a: "disposition_field \<notin> set (flat_term_fields (reports_query a))"
    by (simp add: reports_query_cases flat_term_fields_reports_filters disposition_field_def)
  have b: "filter (\<lambda>q. is_nested_on ''records'' q \<or> is_term_on disposition_field q) (reports_filters a) =
        (if present a ''disposition'' then [Nested ''records'' (Term disposition_field (the (args_get a ''disposition'')))] else [])"
    by (simp add: reports_filters_def Let_def when_str_present present_truthy disposition_field_def)
  have c: "present a ''disposition'' \<Longrightarrow> present_count a \<noteq> 0"
    by (simp add: present_count_def)
  show ?thesis using a b c by (auto simp: reports_query_cases)
qed

theorem disposition_always_nested_witness:
  "present [(''disposition'', ''reject'')] ''disposition'' \<and>
   reports_query [(''disposition'', ''reject'')] =
     BoolFilter [Nested ''records'' (Term ''records.policy_evaluated.disposition.keyword'' ''reject'')] \<and>
   disposition_field \<notin> set (flat_term_fields (reports_query [(''disposition'', ''reject'')]))"
  using disposition_always_nested [of "[(''disposition'', ''reject'')]"]
  by (simp add: present_def args_get_def reports_filters_def Let_def when_str_def truthy_str_def
      disposition_field_def)

lemma reports_range_one_bound:
  "filter (is_range_on ''@timestamp'') (reports_filters a) =
     (if present a ''date_from'' \<and> \<not> present a ''date_to''
        then [Range ''@timestamp'' [(''gte'', the (args_get a ''date_from''))]]
      else if \<not> present a ''date_from'' \<and> present a ''date_to''
        then [Range ''@timestamp'' [(''lte'', the (args_get a ''date_to''))]]
      else if present a ''date_from'' \<and> present a ''date_to''
        then [Range ''@timestamp'' [(''gte'', the (args_get a ''date_from'')),
                                    (''lte'', the (args_get a ''date_to''))]]
      else [])"
  by (simp add: reports_filters_def Let_def when_str_present present_truthy)

lemma timeline_range_without_date_from:
  "\<not> present a ''date_from'' \<Longrightarrow>
   timeline_date_range w (args_get a ''date_from'') (args_get a ''date_to'') =
     (if present a ''date_to'' then [(''lte'', the (args_get a ''date_to''))]
      else [(''gte'', isoformat w (utcnow w - days 30))])"
  by (simp add: timeline_date_range_def Let_def when_str_present)

text \<open>
  Claim C4. A date range with exactly one bound given is open-ended on the missing side
  and keeps the given bound unchanged, and the timeline endpoint defaults to the
  trailing 30 days when no range is requested. The listing builds its range that way
  (\<open>reports_range_one_bound\<close>), and so does the timeline when only \<^verbatim>\<open>date_to\<close> or
  nothing is given (\<open>timeline_range_without_date_from\<close>). On the timeline endpoint with
  only \<^verbatim>\<open>date_from\<close> given the claim fails: the default of the \<^verbatim>\<open>else\<close> branch replaces
  the given lower bound by the bound of the trailing 30 days.
\<close>

theorem timeline_date_from_overwritten:
  "sb_query (timeline_search_body w [(''date_from'', ''2024-01-01'')]) =
     Some (Range ''@timestamp'' [(''gte'', isoformat w (utcnow w - days 30))])"
  by (simp add: timeline_search_body_def timeline_date_range_def Let_def when_str_def args_get_def)


section \<open>Properties of the listing\<close>


lemma pages_split:
  fixes t s :: int
  assumes "0 < s"
  shows "(t + s - 1) div s = (if t mod s = 0 then t div s else t div s + 1)"
proof -
  have e: "t + s - 1 = (t mod s + s - 1) + (t div s) * s" by (simp add: algebra_simps)
  have "(t + s - 1) div s = (t mod s + s - 1) div s + t div s"
    unfolding e using assms by simp
  moreover have "(t mod s + s - 1) div s = (if t mod s = 0 then 0 else 1)"
  proof (cases "t mod s = 0")
    case True
    then show ?thesis using assms by (simp add: div_pos_pos_trivial)
  next
    case False
    have "0 \<le> t mod s" "t mod s < s" using assms by simp_all
    then have b: "0 \<le> t mod s - 1" "t mod s - 1 < s" using False by linarith+
    have "t mod s + s - 1 = (t mod s - 1) + s" by simp
    then have "(t mod s + s - 1) div s = (t mod s - 1) div s + 1"
      using assms by (metis div_add_self2 less_irrefl)
    also have "(t mod s - 1) div s = 0" using b by (simp add: div_pos_pos_trivial)
    finally show ?thesis using False by simp
  qed
  ultimately show ?thesis by simp
qed

lemma pages_ceiling:
  fixes t s :: int
  assumes "0 < s"
  shows "(t + s - 1) div s = \<lceil>real_of_int t / real_of_int s\<rceil>"
proof -
  have "\<lceil>real_of_int t / real_of_int s\<rceil> = - ((- t) div s)"
    by (rule ceiling_divide_eq_div)
  also have "\<dots> = (if t mod s = 0 then t div s else t div s + 1)"
    using assms by (simp add: zdiv_zminus1_eq_if)
  finally show ?thesis using pages_split [OF assms, of t] by simp
qed

lemma sb_reports_body [simp]:
  "sb_from (reports_body q n f) = Some f" "sb_size (reports_body q n f) = n"
  "sb_sort (reports_body q n f) = [(''@timestamp'', ''desc'')]"
  "sb_query (reports_body q n f) = Some q"
  by (simp_all add: reports_body_def)

lemma arg_int_default: "args_get a k = None \<Longrightarrow> arg_int w a k d = Inr d"
  by (simp add: arg_int_def)

text \<open>
  Claim C7. Pagination of the listing: \<^verbatim>\<open>page\<close> and \<^verbatim>\<open>size\<close> default to 1 and 20, the
  size is clamped to the configured maximum, the offset passed to the search engine is
  \<open>(page - 1) * size\<close>, the results are sorted by timestamp descending, and for a page
  size of at least one the \<^verbatim>\<open>pages\<close> field of the answer is the ceiling of
  \<open>total / size\<close>. The witness runs the test fixtures: 50 hits at size 20 make 3 pages,
  and page 3 at size 10 starts at offset 20.
\<close>

theorem listing_pagination:
  assumes "es w = Some client"
    and "arg_int w (args req) ''page'' 1 = Inr page"
    and "arg_int w (args req) ''size'' 20 = Inr requested"
    and "sz = min requested (max_page_size w)"
    and "1 \<le> sz"
    and "body = reports_body (reports_query (args req)) sz ((page - 1) * sz)"
    and "es_search client index_pattern body = Inr resp"
  shows "(args_get (args req) ''page'' = None \<longrightarrow> page = 1) \<and>
         (args_get (args req) ''size'' = None \<longrightarrow> requested = 20) \<and>
         sz \<le> max_page_size w \<and>
         sb_from body = Some ((page - 1) * sz) \<and> sb_size body = sz \<and>
         sb_sort body = [(''@timestamp'', ''desc'')] \<and>
         get_reports w req =
           (jsonify (JObj [(''reports'', JList (map format_report (r_hits resp))),
                           (''total'', JInt (r_total resp)),
                           (''page'', JInt page),
                           (''size'', JInt sz),
                           (''pages'', JInt \<lceil>real_of_int (r_total resp) / real_of_int sz\<rceil>)]),
            log_effect (ESSearch index_pattern body) w)"
proof -
  have d1: "args_get (args req) ''page'' = None \<longrightarrow> page = 1"
    using assms(2) by (auto simp: arg_int_def)
  have d2: "args_get (args req) ''size'' = None \<longrightarrow> requested = 20"
    using assms(3) by (auto simp: arg_int_def)
  have b: "reports_search_body w (args req) = Inr (page, sz, body)"
    using assms(2,3,4,6) by (simp add: reports_search_body_def Let_def)
  have p: "(r_total resp + sz - 1) div sz = \<lceil>real_of_int (r_total resp) / real_of_int sz\<rceil>"
    using assms(5) by (intro pages_ceiling) simp
  have g: "get_reports w req =
           (jsonify (JObj [(''reports'', JList (map format_report (r_hits resp))),
                           (''total'', JInt (r_total resp)),
                           (''page'', JInt page),
                           (''size'', JInt sz),
                           (''pages'', JInt \<lceil>real_of_int (r_total resp) / real_of_int sz\<rceil>)]),
            log_effect (ESSearch index_pattern body) w)"
    using assms(1,5,7) b p by (simp add: get_reports_def Let_def)
  show ?thesis using d1 d2 g assms(4,6) by simp
qed

lemma dec_3: "dec_int ''3'' = Some 3" "dec_int ''10'' = Some 10" "dec_int ''0'' = Some 0"
  "dec_int ''2'' = Some 2" "dec_int ''500'' = Some 500"
  by (simp_all add: dec_int_def dec_nat_def is_digit_def)

theorem listing_pagination_witness:
  "get_reports test_world (get_request []) =
     (jsonify (JObj [(''reports'', JList (map format_report (r_hits mock_search_response))),
                     (''total'', JInt 50), (''page'', JInt 1), (''size'', JInt 20),
                     (''pages'', JInt 3)]),
      log_effect (ESSearch index_pattern (reports_body MatchAll 20 0)) test_world) \<and>
   fst (get_reports test_world (get_request [(''page'', ''3''), (''size'', ''10'')])) =
     jsonify (JObj [(''reports'', JList (map format_report (r_hits mock_search_response))),
                     (''total'', JInt 50), (''page'', JInt 3), (''size'', JInt 10),
                     (''pages'', JInt 5)]) \<and>
   sb_from (reports_body MatchAll 10 20) = Some 20"
proof -
  let ?r1 = "get_request []" and ?r2 = "get_request [(''page'', ''3''), (''size'', ''10'')]"
  have a: "es test_world = Some mock_elasticsearch" by (simp add: test_world_def)
  have s: "es_search mock_elasticsearch index_pattern b = Inr mock_search_response" for b
    by (simp add: mock_elasticsearch_def)
  have t: "r_total mock_search_response = 50" by (simp add: mock_search_response_def)
  have p1: "arg_int test_world (args ?r1) ''page'' 1 = Inr 1"
    and s1: "arg_int test_world (args ?r1) ''size'' 20 = Inr 20"
    by (simp_all add: arg_int_def args_get_def get_request_def)
  have p2: "arg_int test_world (args ?r2) ''page'' 1 = Inr 3"
    and s2: "arg_int test_world (args ?r2) ''size'' 20 = Inr 10"
    by (simp_all add: arg_int_def args_get_def get_request_def test_world_def dec_3)
  have m1: "20 = min 20 (max_page_size test_world)" and m2: "10 = min 10 (max_page_size test_world)"
    by (simp_all add: test_world_def)
  have b1: "reports_body MatchAll 20 0 = reports_body (reports_query (args ?r1)) 20 ((1 - 1) * 20)"
    and b2: "reports_body MatchAll 10 20 = reports_body (reports_query (args ?r2)) 10 ((3 - 1) * 10)"
    by (simp_all add: reports_query_def reports_filters_def Let_def when_str_def truthy_str_def
        args_get_def get_request_def)
  have c1: "ceiling (real_of_int 50 / real_of_int 20) = 3"
    and c2: "ceiling (real_of_int 50 / real_of_int 10) = 5"
    by (simp_all add: ceiling_divide_eq_div)
  show ?thesis
    using listing_pagination [OF a p1 s1 m1 _ b1 s] listing_pagination [OF a p2 s2 m2 _ b2 s]
    by (simp add: t c1 c2)
qed

lemma get_reports_one_search:
  assumes "es w = Some client" and "reports_search_body w (args req) = Inr (page, sz, body)"
  shows "snd (get_reports w req) = log_effect (ESSearch index_pattern body) w"
  using assms by (simp add: get_reports_def Let_def split: sum.splits)

lemma get_reports_parse_failure:
  assumes "es w = Some client" and "reports_search_body w (args req) = Inl e"
  shows "get_reports w req = (error_500 w e, w)"
  using assms by (simp add: get_reports_def)

lemma get_timeline_one_search:
  assumes "es w = Some client"
  shows "snd (get_timeline_data w req) =
           log_effect (ESSearch index_pattern (timeline_search_body w (args req))) w"
  using assms by (simp add: get_timeline_data_def Let_def split: sum.splits)





section \<open>Properties of the handlers\<close>


text \<open>
  Claim C5, as amended. Every read and aggregation handler answers 503 with the body
  \<^verbatim>\<open>{"error": "Elasticsearch not available"}\<close>, and does nothing else, when the
  search-engine client is absent (the module-level handle is \<^verbatim>\<open>None\<close>). When the
  client exists and the search call raises, as it does when the engine cannot be
  reached, the listing and the timeline answer 500 with the text of the exception.
\<close>

theorem search_engine_absent:
  "(es w = None \<longrightarrow>
      get_reports w req = ((503, JObj [(''error'', JStr ''Elasticsearch not available'')]), w) \<and>
      get_top_organizations w req = ((503, JObj [(''error'', JStr ''Elasticsearch not available'')]), w) \<and>
      get_disposition_stats w req = ((503, JObj [(''error'', JStr ''Elasticsearch not available'')]), w) \<and>
      get_timeline_data w req = ((503, JObj [(''error'', JStr ''Elasticsearch not available'')]), w)) \<and>
   (es w = Some client \<and> reports_search_body w (args req) = Inr (page, sz, body) \<and>
    es_search client index_pattern body = Inl e \<longrightarrow>
      fst (get_reports w req) = (500, JObj [(''error'', JStr (exn_text w e))])) \<and>
   (es w = Some client \<and>
    es_search client index_pattern (timeline_search_body w (args req)) = Inl e \<longrightarrow>
      fst (get_timeline_data w req) = (500, JObj [(''error'', JStr (exn_text w e))]))"
  by (simp add: get_reports_def get_top_organizations_def get_disposition_stats_def
      get_timeline_data_def unavailable_def error_body_def error_500_def Let_def)

theorem search_engine_absent_witness:
  "es (test_world\<lparr>es := None\<rparr>) = None \<and>
   fst (fst (get_reports (test_world\<lparr>es := None\<rparr>) (get_request []))) = 503 \<and>
   fst (fst (get_top_organizations (test_world\<lparr>es := None\<rparr>) (get_request []))) = 503 \<and>
   fst (fst (get_timeline_data (test_world\<lparr>es := Some unreachable_elasticsearch\<rparr>) (get_request []))) = 500"
proof -
  have u: "es_search unreachable_elasticsearch i b = Inl connection_error" for i b
    by (simp add: unreachable_elasticsearch_def)
  show ?thesis
    using search_engine_absent [of "test_world\<lparr>es := None\<rparr>" "get_request []"]
      search_engine_absent [of "test_world\<lparr>es := Some unreachable_elasticsearch\<rparr>"
        "get_request []" unreachable_elasticsearch _ _ _ connection_error]
    by (simp add: u)
qed

theorem unreachable_search_engine_counterexample:
  "fst (fst (get_reports (test_world\<lparr>es := Some unreachable_elasticsearch\<rparr>) (get_request []))) = 500 \<and>
   fst (fst (get_top_organizations (test_world\<lparr>es := Some unreachable_elasticsearch\<rparr>) (get_request []))) = 500 \<and>
   fst (fst (get_disposition_stats (test_world\<lparr>es := Some unreachable_elasticsearch\<rparr>) (get_request []))) = 500 \<and>
   fst (fst (get_timeline_data (test_world\<lparr>es := Some unreachable_elasticsearch\<rparr>) (get_request []))) = 500"
  by (simp add: get_reports_def get_top_organizations_def get_disposition_stats_def
      get_timeline_data_def error_500_def Let_def unreachable_elasticsearch_def
      reports_search_body_def arg_int_def args_get_def get_request_def test_world_def
      get_cached_response_def mock_redis_def dict_get_def log_effect_def)



lemma dict_get_dict_set: "dict_get (dict_set d k v) k' = (if k = k' then Some v else dict_get d k')"
  by (induction d) (auto simp: dict_get_def)

lemma cached_hit:
  assumes "redis_client w = Some r" "r_raises r = None" "dict_get (r_store r) key = Some (ttl, p)"
  shows "get_cached_response w key = (Some p, log_effect (CacheGet key) w)"
  using assms by (simp add: get_cached_response_def Let_def)

lemma cached_miss:
  assumes "redis_client w = Some r" "r_raises r = None" "dict_get (r_store r) key = None"
  shows "get_cached_response w key = (None, log_effect (CacheGet key) w)"
  using assms by (simp add: get_cached_response_def Let_def)

lemma log_effect_fields [simp]:
  "redis_client (log_effect x w) = redis_client w" "es (log_effect x w) = es w"
  "cache_ttl (log_effect x w) = cache_ttl w" "trace (log_effect x w) = trace w @ [x]"
  "emitted (log_effect x w) = emitted w" "emit_raises (log_effect x w) = emit_raises w"
  "isoformat (log_effect x w) = isoformat w" "utcnow (log_effect x w) = utcnow w"
  by (simp_all add: log_effect_def)

lemma cache_response_store:
  assumes "redis_client w = Some r" "r_raises r = None"
  shows "redis_client (cache_response w key d) =
           Some (r\<lparr>r_store := dict_set (r_store r) key (cache_ttl w, d)\<rparr>)"
    and "trace (cache_response w key d) = trace w @ [CacheSetex key (cache_ttl w) d]"
  using assms by (simp_all add: cache_response_def Let_def)

lemma top_orgs_hit:
  assumes "es w = Some client" "redis_client w = Some r" "r_raises r = None"
    and "key = get_cache_key w ''top_orgs'' (to_dict (args req))"
    and "dict_get (r_store r) key = Some (ttl, p)" "truthy p"
  shows "get_top_organizations w req = (jsonify p, log_effect (CacheGet key) w)"
  using assms cached_hit [OF assms(2,3,5)]
  by (simp add: get_top_organizations_def Let_def)

lemma top_orgs_miss:
  assumes "es w = Some client" "redis_client w = Some r" "r_raises r = None"
    and "key = get_cache_key w ''top_orgs'' (to_dict (args req))"
    and "dict_get (r_store r) key = None"
    and "arg_int w (args req) ''size'' 10 = Inr n"
    and "es_search client index_pattern (top_orgs_body n) = Inr resp"
    and "shape_organizations resp = Inr result"
  shows "get_top_organizations w req =
           (jsonify result,
            cache_response (log_effect (ESSearch index_pattern (top_orgs_body n))
                              (log_effect (CacheGet key) w)) key result)"
  using assms cached_miss [OF assms(2,3,5)]
  by (simp add: get_top_organizations_def Let_def)

lemma dispositions_hit:
  assumes "es w = Some client" "redis_client w = Some r" "r_raises r = None"
    and "key = get_cache_key w ''dispositions'' []"
    and "dict_get (r_store r) key = Some (ttl, p)" "truthy p"
  shows "get_disposition_stats w req = (jsonify p, log_effect (CacheGet key) w)"
  using assms cached_hit [OF assms(2,3,5)]
  by (simp add: get_disposition_stats_def Let_def)

lemma dispositions_miss:
  assumes "es w = Some client" "redis_client w = Some r" "r_raises r = None"
    and "key = get_cache_key w ''dispositions'' []"
    and "dict_get (r_store r) key = None"
    and "es_search client index_pattern dispositions_body = Inr resp"
    and "shape_dispositions resp = Inr result"
  shows "get_disposition_stats w req =
           (jsonify result,
            cache_response (log_effect (ESSearch index_pattern dispositions_body)
                              (log_effect (CacheGet key) w)) key result)"
  using assms cached_miss [OF assms(2,3,5)]
  by (simp add: get_disposition_stats_def Let_def)

lemma get_reports_no_cache:
  "redis_client (snd (get_reports w req)) = redis_client w \<and>
   filter cache_effect (new_effects w (snd (get_reports w req))) = []"
  by (simp add: get_reports_def new_effects_def Let_def split: option.splits sum.splits prod.splits)

lemma get_timeline_no_cache:
  "redis_client (snd (get_timeline_data w req)) = redis_client w \<and>
   filter cache_effect (new_effects w (snd (get_timeline_data w req))) = []"
  by (simp add: get_timeline_data_def new_effects_def Let_def split: option.splits sum.splits prod.splits)

lemma arg_int_redis [simp]:
  "arg_int (w\<lparr>redis_client := c\<rparr>) a k d = arg_int w a k d"
  by (simp add: arg_int_def split: option.splits)

lemma reports_search_body_redis [simp]:
  "reports_search_body (w\<lparr>redis_client := c\<rparr>) a = reports_search_body w a"
  by (simp add: reports_search_body_def split: sum.splits)

lemma get_reports_ignores_cache:
  "fst (get_reports (w\<lparr>redis_client := c\<rparr>) req) = fst (get_reports w req)"
  by (simp add: get_reports_def Let_def error_500_def split: option.splits sum.splits prod.splits)

lemma timeline_search_body_redis [simp]:
  "timeline_search_body (w\<lparr>redis_client := c\<rparr>) a = timeline_search_body w a"
  by (simp add: timeline_search_body_def timeline_date_range_def)

lemma get_timeline_ignores_cache:
  "fst (get_timeline_data (w\<lparr>redis_client := c\<rparr>) req) = fst (get_timeline_data w req)"
  by (simp add: get_timeline_data_def Let_def error_500_def split: option.splits sum.splits prod.splits)


text \<open>
  Claim C2, as amended. With the search client present and a working cache, the
  top-organizations and the disposition handlers build their cache key; on a hit with
  a non-empty payload they return the cached payload unmodified and make no search;
  on a miss, when the size parameter parses and the search answers with a well-formed
  response, they execute their query, return the shaped result and write it to the
  cache under that key with the configured time to live. The listing and the timeline
  handlers do not use the cache: they make no cache call, leave the cache as it is,
  and answer the same whatever cache client is in place. Every timeline request makes
  exactly its one search call; a listing request whose \<^verbatim>\<open>page\<close> and \<^verbatim>\<open>size\<close> parse
  makes exactly its one search call, and one whose \<^verbatim>\<open>page\<close> or \<^verbatim>\<open>size\<close> does not
  parse is answered 500 with no call at all.
\<close>

theorem cache_first_aggregations:
  assumes "es w = Some client" and "redis_client w = Some r" and "r_raises r = None"
    and "k1 = get_cache_key w ''top_orgs'' (to_dict (args req))"
    and "k2 = get_cache_key w ''dispositions'' []"
  shows
    "(dict_get (r_store r) k1 = Some (ttl, p) \<and> truthy p \<longrightarrow>
        get_top_organizations w req = (jsonify p, log_effect (CacheGet k1) w)) \<and>
     (dict_get (r_store r) k1 = None \<and> arg_int w (args req) ''size'' 10 = Inr n \<and>
      es_search client index_pattern (top_orgs_body n) = Inr resp \<and>
      shape_organizations resp = Inr result \<longrightarrow>
        fst (get_top_organizations w req) = jsonify result \<and>
        new_effects w (snd (get_top_organizations w req)) =
          [CacheGet k1, ESSearch index_pattern (top_orgs_body n), CacheSetex k1 (cache_ttl w) result] \<and>
        redis_client (snd (get_top_organizations w req)) =
          Some (r\<lparr>r_store := dict_set (r_store r) k1 (cache_ttl w, result)\<rparr>)) \<and>
     (dict_get (r_store r) k2 = Some (ttl, p) \<and> truthy p \<longrightarrow>
        get_disposition_stats w req = (jsonify p, log_effect (CacheGet k2) w)) \<and>
     (dict_get (r_store r) k2 = None \<and>
      es_search client index_pattern dispositions_body = Inr resp \<and>
      shape_dispositions resp = Inr result \<longrightarrow>
        fst (get_disposition_stats w req) = jsonify result \<and>
        new_effects w (snd (get_disposition_stats w req)) =
          [CacheGet k2, ESSearch index_pattern dispositions_body, CacheSetex k2 (cache_ttl w) result] \<and>
        redis_client (snd (get_disposition_stats w req)) =
          Some (r\<lparr>r_store := dict_set (r_store r) k2 (cache_ttl w, result)\<rparr>)) \<and>
     redis_client (snd (get_reports w req)) = redis_client w \<and>
     filter cache_effect (new_effects w (snd (get_reports w req))) = [] \<and>
     fst (get_reports (w\<lparr>redis_client := c\<rparr>) req) = fst (get_reports w req) \<and>
     redis_client (snd (get_timeline_data w req)) = redis_client w \<and>
     filter cache_effect (new_effects w (snd (get_timeline_data w req))) = [] \<and>
     fst (get_timeline_data (w\<lparr>redis_client := c\<rparr>) req) = fst (get_timeline_data w req) \<and>
     (reports_search_body w (args req) = Inr (page, sz, body) \<longrightarrow>
        new_effects w (snd (get_reports w req)) = [ESSearch index_pattern body]) \<and>
     (reports_search_body w (args req) = Inl e \<longrightarrow>
        get_reports w req = ((500, JObj [(''error'', JStr (exn_text w e))]), w)) \<and>
     new_effects w (snd (get_timeline_data w req)) =
       [ESSearch index_pattern (timeline_search_body w (args req))]"
proof -
  have l1: "reports_search_body w (args req) = Inr (page, sz, body) \<longrightarrow>
        new_effects w (snd (get_reports w req)) = [ESSearch index_pattern body]"
    using get_reports_one_search [OF assms(1)] by (simp add: new_effects_def)
  have l2: "reports_search_body w (args req) = Inl e \<longrightarrow>
        get_reports w req = ((500, JObj [(''error'', JStr (exn_text w e))]), w)"
    using get_reports_parse_failure [OF assms(1)] by (simp add: error_500_def error_body_def)
  have l3: "new_effects w (snd (get_timeline_data w req)) =
       [ESSearch index_pattern (timeline_search_body w (args req))]"
    using get_timeline_one_search [OF assms(1)] by (simp add: new_effects_def)
  have h1: "dict_get (r_store r) k1 = Some (ttl, p) \<and> truthy p \<longrightarrow>
        get_top_organizations w req = (jsonify p, log_effect (CacheGet k1) w)"
    using top_orgs_hit [OF assms(1,2,3,4)] by blast
  have m1: "dict_get (r_store r) k1 = None \<and> arg_int w (args req) ''size'' 10 = Inr n \<and>
      es_search client index_pattern (top_orgs_body n) = Inr resp \<and>
      shape_organizations resp = Inr result \<longrightarrow>
        fst (get_top_organizations w req) = jsonify result \<and>
        new_effects w (snd (get_top_organizations w req)) =
          [CacheGet k1, ESSearch index_pattern (top_orgs_body n), CacheSetex k1 (cache_ttl w) result] \<and>
        redis_client (snd (get_top_organizations w req)) =
          Some (r\<lparr>r_store := dict_set (r_store r) k1 (cache_ttl w, result)\<rparr>)"
  proof (intro impI, elim conjE)
    assume a: "dict_get (r_store r) k1 = None" "arg_int w (args req) ''size'' 10 = Inr n"
      "es_search client index_pattern (top_orgs_body n) = Inr resp"
      "shape_organizations resp = Inr result"
    let ?w2 = "log_effect (ESSearch index_pattern (top_orgs_body n)) (log_effect (CacheGet k1) w)"
    have r2: "redis_client ?w2 = Some r" using assms(2) by simp
    show "fst (get_top_organizations w req) = jsonify result \<and>
        new_effects w (snd (get_top_organizations w req)) =
          [CacheGet k1, ESSearch index_pattern (top_orgs_body n), CacheSetex k1 (cache_ttl w) result] \<and>
        redis_client (snd (get_top_organizations w req)) =
          Some (r\<lparr>r_store := dict_set (r_store r) k1 (cache_ttl w, result)\<rparr>)"
      using top_orgs_miss [OF assms(1,2,3,4) a] cache_response_store [OF r2 assms(3)]
      by (simp add: new_effects_def)
  qed
  have h2: "dict_get (r_store r) k2 = Some (ttl, p) \<and> truthy p \<longrightarrow>
        get_disposition_stats w req = (jsonify p, log_effect (CacheGet k2) w)"
    using dispositions_hit [OF assms(1,2,3,5)] by blast
  have m2: "dict_get (r_store r) k2 = None \<and>
      es_search client index_pattern dispositions_body = Inr resp \<and>
      shape_dispositions resp = Inr result \<longrightarrow>
        fst (get_disposition_stats w req) = jsonify result \<and>
        new_effects w (snd (get_disposition_stats w req)) =
          [CacheGet k2, ESSearch index_pattern dispositions_body, CacheSetex k2 (cache_ttl w) result] \<and>
        redis_client (snd (get_disposition_stats w req)) =
          Some (r\<lparr>r_store := dict_set (r_store r) k2 (cache_ttl w, result)\<rparr>)"
  proof (intro impI, elim conjE)
    assume a: "dict_get (r_store r) k2 = None"
      "es_search client index_pattern dispositions_body = Inr resp"
      "shape_dispositions resp = Inr result"
    let ?w2 = "log_effect (ESSearch index_pattern dispositions_body) (log_effect (CacheGet k2) w)"
    have r2: "redis_client ?w2 = Some r" using assms(2) by simp
    show "fst (get_disposition_stats w req) = jsonify result \<and>
        new_effects w (snd (get_disposition_stats w req)) =
          [CacheGet k2, ESSearch index_pattern dispositions_body, CacheSetex k2 (cache_ttl w) result] \<and>
        redis_client (snd (get_disposition_stats w req)) =
          Some (r\<lparr>r_store := dict_set (r_store r) k2 (cache_ttl w, result)\<rparr>)"
      using dispositions_miss [OF assms(1,2,3,5) a] cache_response_store [OF r2 assms(3)]
      by (simp add: new_effects_def)
  qed
  show ?thesis
    using h1 m1 h2 m2 l1 l2 l3 get_reports_no_cache [of w req] get_timeline_no_cache [of w req]
      get_reports_ignores_cache [where w = w and c = c and req = req]
      get_timeline_ignores_cache [where w = w and c = c and req = req]
    by blast
qed

lemma shape_mock:
  "shape_organizations mock_search_response =
     Inr (JObj [(''organizations'',
                 JList [JObj [(''organization'', JStr ''Google''), (''reports'', JInt 100)],
                        JObj [(''organization'', JStr ''Microsoft''), (''reports'', JInt 80)]])])"
  by (simp add: shape_organizations_def mock_search_response_def subscript_def dict_get_def
      agg_buckets_def)

theorem cache_first_aggregations_witness:
  "fst (get_top_organizations test_world (get_request [])) =
     jsonify (JObj [(''organizations'',
                 JList [JObj [(''organization'', JStr ''Google''), (''reports'', JInt 100)],
                        JObj [(''organization'', JStr ''Microsoft''), (''reports'', JInt 80)]])]) \<and>
   get_disposition_stats
       (test_world\<lparr>redis_client := Some \<lparr>r_store = [(get_cache_key test_world ''dispositions'' [],
                                 (300, JObj [(''dispositions'', JList [])]))], r_raises = None\<rparr>\<rparr>)
       (get_request []) =
     (jsonify (JObj [(''dispositions'', JList [])]),
      log_effect (CacheGet (get_cache_key test_world ''dispositions'' []))
       (test_world\<lparr>redis_client := Some \<lparr>r_store = [(get_cache_key test_world ''dispositions'' [],
                                 (300, JObj [(''dispositions'', JList [])]))], r_raises = None\<rparr>\<rparr>)) \<and>
   get_reports test_world (get_request [(''page'', ''x'')]) =
     ((500, JObj [(''error'', JStr ''ValueError'')]), test_world) \<and>
   new_effects test_world (snd (get_reports test_world (get_request []))) =
     [ESSearch index_pattern (reports_body MatchAll 20 0)]"
proof -
  let ?k = "get_cache_key test_world ''dispositions'' []"
  let ?r = "\<lparr>r_store = [(?k, (300 :: int, JObj [(''dispositions'', JList [])]))], r_raises = None\<rparr>"
  let ?w = "test_world\<lparr>redis_client := Some ?r\<rparr>"
  have e1: "es test_world = Some mock_elasticsearch" and r1: "redis_client test_world = Some mock_redis"
    and n1: "r_raises mock_redis = None"
    by (simp_all add: test_world_def mock_redis_def)
  have e2: "es ?w = Some mock_elasticsearch" and r2: "redis_client ?w = Some ?r" and n2: "r_raises ?r = None"
    by (simp_all add: test_world_def)
  have k2: "?k = get_cache_key ?w ''dispositions'' []" by (simp add: get_cache_key_def)
  have a1: "dict_get (r_store mock_redis) k = None" for k by (simp add: mock_redis_def dict_get_def)
  have a2: "arg_int test_world (args (get_request [])) ''size'' 10 = Inr 10"
    by (simp add: arg_int_def args_get_def get_request_def)
  have a3: "es_search mock_elasticsearch index_pattern b = Inr mock_search_response" for b
    by (simp add: mock_elasticsearch_def)
  have b1: "dict_get (r_store ?r) ?k = Some (300, JObj [(''dispositions'', JList [])])"
    by (simp add: dict_get_def)
  have b2: "truthy (JObj [(''dispositions'', JList [])])" by simp
  have ab: "fst (get_top_organizations test_world (get_request [])) =
     jsonify (JObj [(''organizations'',
                 JList [JObj [(''organization'', JStr ''Google''), (''reports'', JInt 100)],
                        JObj [(''organization'', JStr ''Microsoft''), (''reports'', JInt 80)]])]) \<and>
     get_disposition_stats ?w (get_request []) =
       (jsonify (JObj [(''dispositions'', JList [])]), log_effect (CacheGet ?k) ?w)"
    using cache_first_aggregations [OF e1 r1 n1 refl refl, where req = "get_request []" and n = 10
        and resp = mock_search_response]
      cache_first_aggregations [OF e2 r2 n2 refl k2, where ttl = 300
        and p = "JObj [(''dispositions'', JList [])]" and req = "get_request []"]
      a1 a2 a3 b1 b2 shape_mock
    by simp
  have c1: "reports_search_body test_world (args (get_request [(''page'', ''x'')])) =
              Inl (ValueError ''x'')"
    by (simp add: reports_search_body_def arg_int_def args_get_def get_request_def test_world_def
        dec_int_def dec_nat_def is_digit_def)
  have c2: "reports_search_body test_world (args (get_request [])) =
              Inr (1, 20, reports_body MatchAll 20 0)"
    by (simp add: reports_search_body_def arg_int_def args_get_def get_request_def test_world_def
        Let_def reports_query_def reports_filters_def when_str_def truthy_str_def)
  have t: "exn_text test_world (ValueError ''x'') = ''ValueError''" by (simp add: test_world_def)
  have c: "get_reports test_world (get_request [(''page'', ''x'')]) =
     ((500, JObj [(''error'', JStr ''ValueError'')]), test_world)"
    using cache_first_aggregations [OF e1 r1 n1 refl refl,
        where req = "get_request [(''page'', ''x'')]" and e = "ValueError ''x''"] c1 t
    by simp
  have d: "new_effects test_world (snd (get_reports test_world (get_request []))) =
     [ESSearch index_pattern (reports_body MatchAll 20 0)]"
    using cache_first_aggregations [OF e1 r1 n1 refl refl, where req = "get_request []"
        and page = 1 and sz = 20 and body = "reports_body MatchAll 20 0"] c2
    by simp
  show ?thesis using ab c d by blast
qed

theorem listing_cache_counterexample:
  "fst (fst (get_reports test_world (get_request []))) = 200 \<and>
   redis_client (snd (get_reports test_world (get_request []))) = Some \<lparr>r_store = [], r_raises = None\<rparr> \<and>
   new_effects test_world (snd (get_reports test_world (get_request []))) =
     [ESSearch index_pattern (reports_body MatchAll 20 0)] \<and>
   fst (fst (get_timeline_data test_world (get_request []))) = 200 \<and>
   redis_client (snd (get_timeline_data test_world (get_request []))) = Some \<lparr>r_store = [], r_raises = None\<rparr>"
  by (simp add: get_reports_def get_timeline_data_def reports_search_body_def arg_int_def
      args_get_def get_request_def test_world_def mock_elasticsearch_def mock_redis_def Let_def
      new_effects_def log_effect_def jsonify_def reports_query_def reports_filters_def
      when_str_def truthy_str_def shape_timeline_def mock_search_response_def subscript_def
      dict_get_def agg_buckets_def)


section \<open>Properties of the cache key\<close>



lemma digits_value_snoc: "digits_value (s @ [c]) = 10 * digits_value s + (of_char c - 48)"
  by (simp add: digits_value_def)

lemma of_char_digit_char: "d < 10 \<Longrightarrow> (of_char (digit_char d) :: nat) = 48 + d"
  by (simp add: digit_char_def)

lemma digits_value_nat_digits: "digits_value (nat_digits n) = n"
proof (induction n rule: nat_digits.induct)
  case (1 n)
  show ?case
  proof (cases "n < 10")
    case True
    then show ?thesis
      by (subst nat_digits.simps) (simp add: digits_value_def of_char_digit_char)
  next
    case False
    then have "digits_value (nat_digits (n div 10)) = n div 10" using 1 by simp
    then show ?thesis using False
      by (subst nat_digits.simps) (simp add: digits_value_snoc of_char_digit_char)
  qed
qed

lemma nat_digits_inj: "nat_digits m = nat_digits n \<Longrightarrow> m = n"
  by (metis digits_value_nat_digits)

lemma digit_char_not_minus: "d < 10 \<Longrightarrow> digit_char d \<noteq> CHR ''-''"
proof
  assume "d < 10" "digit_char d = CHR ''-''"
  then have "(of_char (digit_char d) :: nat) = of_char (CHR ''-'')" by simp
  then show False using \<open>d < 10\<close> by (simp add: of_char_digit_char)
qed

lemma nat_digits_no_minus: "CHR ''-'' \<notin> set (nat_digits n)"
proof (induction n rule: nat_digits.induct)
  case (1 n)
  show ?case
  proof (cases "n < 10")
    case True
    then show ?thesis
      using digit_char_not_minus [of n] by (subst nat_digits.simps) auto
  next
    case False
    then show ?thesis
      using 1 digit_char_not_minus [of "n mod 10"] by (subst nat_digits.simps) auto
  qed
qed

lemma str_int_inj: "str_int i = str_int j \<Longrightarrow> i = j"
proof -
  assume a: "str_int i = str_int j"
  have ne: "CHR ''-'' # nat_digits m \<noteq> nat_digits n" for m n
    using nat_digits_no_minus [of n] by (metis list.set_intros(1))
  show ?thesis
  proof (cases "i < 0"; cases "j < 0")
    assume "i < 0" "j < 0"
    then have "nat (- i) = nat (- j)" using a by (simp add: str_int_def nat_digits_inj)
    then show ?thesis using \<open>i < 0\<close> \<open>j < 0\<close> by simp
  next
    assume "i < 0" "\<not> j < 0"
    then show ?thesis using a ne by (simp add: str_int_def)
  next
    assume "\<not> i < 0" "j < 0"
    then show ?thesis using a ne [of "nat (- j)" "nat i"] by (simp add: str_int_def)
  next
    assume "\<not> i < 0" "\<not> j < 0"
    then have "nat i = nat j" using a by (simp add: str_int_def nat_digits_inj)
    then show ?thesis using \<open>\<not> i < 0\<close> \<open>\<not> j < 0\<close> by simp
  qed
qed

lemma quote_facts [simp]:
  "squote \<noteq> bslash" "dquote \<noteq> bslash" "squote \<noteq> dquote"
  "bslash \<noteq> squote" "bslash \<noteq> dquote" "dquote \<noteq> squote"
  by (simp_all add: squote_def dquote_def bslash_def)

lemma of_char_hex: "d < 16 \<Longrightarrow> (of_char (hex_char d) :: nat) = (if d < 10 then 48 + d else 87 + d)"
  by (simp add: hex_char_def)

lemma hex_char_inj: "a < 16 \<Longrightarrow> b < 16 \<Longrightarrow> hex_char a = hex_char b \<Longrightarrow> a = b"
proof -
  assume a: "a < 16" "b < 16" "hex_char a = hex_char b"
  then have "(of_char (hex_char a) :: nat) = of_char (hex_char b)" by simp
  then show ?thesis using a(1,2) by (simp add: of_char_hex split: if_splits)
qed

lemma hex_pair_inj:
  assumes "hex_char (of_char c div 16) = hex_char (of_char d div 16)"
    and "hex_char (of_char c mod 16) = hex_char (of_char d mod 16)"
  shows "c = d"
proof -
  have lt: "(of_char x :: nat) div 16 < 16" for x :: char
  proof -
    have "(of_char x :: nat) < 256" by (rule nat_of_char_less_256)
    then show ?thesis by presburger
  qed
  have "(of_char c :: nat) div 16 = of_char d div 16"
    using hex_char_inj [OF lt lt assms(1)] .
  moreover have "(of_char c :: nat) mod 16 = of_char d mod 16"
    using hex_char_inj [OF _ _ assms(2)] by simp
  ultimately have "(of_char c :: nat) = of_char d"
    by (metis div_mult_mod_eq)
  then show ?thesis by simp
qed


lemma repr_char_cases:
  "repr_char q c = [bslash, bslash] \<and> c = bslash \<or>
   repr_char q c = [bslash, q] \<and> c = q \<and> c \<noteq> bslash \<or>
   repr_char q c = [bslash, CHR ''t''] \<and> c = CHR 0x09 \<or>
   repr_char q c = [bslash, CHR ''n''] \<and> c = CHR 0x0A \<or>
   repr_char q c = [bslash, CHR ''r''] \<and> c = CHR 0x0D \<or>
   repr_char q c = [bslash, CHR ''x'', hex_char (of_char c div 16), hex_char (of_char c mod 16)] \<or>
   repr_char q c = [c] \<and> c \<noteq> bslash \<and> c \<noteq> q"
  by (simp add: repr_char_def)

lemma quote_not_letter [simp]:
  "squote \<noteq> CHR ''t''" "squote \<noteq> CHR ''n''" "squote \<noteq> CHR ''r''" "squote \<noteq> CHR ''x''"
  "dquote \<noteq> CHR ''t''" "dquote \<noteq> CHR ''n''" "dquote \<noteq> CHR ''r''" "dquote \<noteq> CHR ''x''"
  "bslash \<noteq> CHR ''t''" "bslash \<noteq> CHR ''n''" "bslash \<noteq> CHR ''r''" "bslash \<noteq> CHR ''x''"
  by (simp_all add: squote_def dquote_def bslash_def)

lemma hex_value_hex_char: "d < 16 \<Longrightarrow> hex_value (hex_char d) = d"
  by (simp add: hex_value_def of_char_hex)

lemma unrepr_hex:
  "unrepr_char ([bslash, CHR ''x'', hex_char (of_char c div 16), hex_char (of_char c mod 16)] @ u) =
     Some (c, u)"
proof -
  have lt: "(of_char c :: nat) div 16 < 16"
  proof -
    have "(of_char c :: nat) < 256" by (rule nat_of_char_less_256)
    then show ?thesis by presburger
  qed
  have "char_of (16 * ((of_char c :: nat) div 16) + of_char c mod 16) = c" by simp
  then show ?thesis using lt by (simp add: hex_value_hex_char)
qed

lemma unrepr_plain: "c \<noteq> bslash \<Longrightarrow> unrepr_char ([c] @ u) = Some (c, u)"
  by (cases u) simp_all

lemma unrepr_repr:
  assumes "q = squote \<or> q = dquote"
  shows "unrepr_char (repr_char q c @ u) = Some (c, u)"
proof -
  consider "repr_char q c = [bslash, bslash] \<and> c = bslash"
    | "repr_char q c = [bslash, q] \<and> c = q \<and> c \<noteq> bslash"
    | "repr_char q c = [bslash, CHR ''t''] \<and> c = CHR 0x09"
    | "repr_char q c = [bslash, CHR ''n''] \<and> c = CHR 0x0A"
    | "repr_char q c = [bslash, CHR ''r''] \<and> c = CHR 0x0D"
    | "repr_char q c = [bslash, CHR ''x'', hex_char (of_char c div 16), hex_char (of_char c mod 16)]"
    | "repr_char q c = [c] \<and> c \<noteq> bslash \<and> c \<noteq> q"
    using repr_char_cases [of q c] by blast
  then show ?thesis
  proof cases
    case 1
    then have e: "repr_char q c = [bslash, bslash]" and c: "c = bslash" by blast+
    have "unrepr_char (repr_char q c @ u) = Some (c', u)" if "c' = c" for c'
      unfolding e using that c by simp
    then show ?thesis by simp
  next
    case 2
    then have e: "repr_char q c = [bslash, q]" and c: "c = q" by blast+
    have "unrepr_char (repr_char q c @ u) = Some (q, u)"
      unfolding e using assms by auto
    then show ?thesis using c by simp
  next
    case 3
    then have e: "repr_char q c = [bslash, CHR ''t'']" and c: "c = CHR 0x09" by blast+
    have "unrepr_char (repr_char q c @ u) = Some (c', u)" if "c' = c" for c'
      unfolding e using that c by simp
    then show ?thesis by simp
  next
    case 4
    then have e: "repr_char q c = [bslash, CHR ''n'']" and c: "c = CHR 0x0A" by blast+
    have "unrepr_char (repr_char q c @ u) = Some (c', u)" if "c' = c" for c'
      unfolding e using that c by simp
    then show ?thesis by simp
  next
    case 5
    then have e: "repr_char q c = [bslash, CHR ''r'']" and c: "c = CHR 0x0D" by blast+
    have "unrepr_char (repr_char q c @ u) = Some (c', u)" if "c' = c" for c'
      unfolding e using that c by simp
    then show ?thesis by simp
  next
    case 6
    show ?thesis unfolding 6 by (rule unrepr_hex)
  next
    case 7
    then have e: "repr_char q c = [c]" and c: "c \<noteq> bslash" by blast+
    show ?thesis unfolding e using c by (rule unrepr_plain)
  qed
qed

lemma repr_char_prefix:
  assumes "q = squote \<or> q = dquote" and "repr_char q c @ u = repr_char q d @ v"
  shows "c = d \<and> u = v"
proof -
  have "unrepr_char (repr_char q c @ u) = unrepr_char (repr_char q d @ v)"
    using assms(2) by simp
  then show ?thesis using unrepr_repr [OF assms(1)] by simp
qed

lemma repr_char_not_quote:
  assumes "q = squote \<or> q = dquote"
  shows "repr_char q c @ u \<noteq> q # v"
proof -
  have "\<exists>a r. repr_char q c = a # r \<and> a \<noteq> q"
  proof -
    consider "repr_char q c = [bslash, bslash] \<and> c = bslash"
      | "repr_char q c = [bslash, q] \<and> c = q \<and> c \<noteq> bslash"
      | "repr_char q c = [bslash, CHR ''t''] \<and> c = CHR 0x09"
      | "repr_char q c = [bslash, CHR ''n''] \<and> c = CHR 0x0A"
      | "repr_char q c = [bslash, CHR ''r''] \<and> c = CHR 0x0D"
      | "repr_char q c = [bslash, CHR ''x'', hex_char (of_char c div 16), hex_char (of_char c mod 16)]"
      | "repr_char q c = [c] \<and> c \<noteq> bslash \<and> c \<noteq> q"
      using repr_char_cases [of q c] by blast
    then show ?thesis
    proof cases
      case 7
      then show ?thesis by simp
    qed (use assms in auto)
  qed
  then show ?thesis by auto
qed

lemma repr_body_prefix:
  assumes "q = squote \<or> q = dquote"
  shows "concat (map (repr_char q) s) @ q # x = concat (map (repr_char q) t) @ q # y \<Longrightarrow>
         s = t \<and> x = y"
proof (induction s arbitrary: t)
  case Nil
  show ?case
  proof (cases t)
    case Nil
    then show ?thesis using Nil.prems by simp
  next
    case (Cons d t')
    then have "repr_char q d @ (concat (map (repr_char q) t') @ q # y) = q # x"
      using Nil.prems by simp
    then show ?thesis using repr_char_not_quote [OF assms] by blast
  qed
next
  case (Cons c s)
  show ?case
  proof (cases t)
    case Nil
    then have "repr_char q c @ (concat (map (repr_char q) s) @ q # x) = q # y"
      using Cons.prems by simp
    then show ?thesis using repr_char_not_quote [OF assms] by blast
  next
    case (Cons d t')
    then have "repr_char q c @ (concat (map (repr_char q) s) @ q # x) =
               repr_char q d @ (concat (map (repr_char q) t') @ q # y)"
      using Cons.prems by simp
    then have "c = d" "concat (map (repr_char q) s) @ q # x = concat (map (repr_char q) t') @ q # y"
      using repr_char_prefix [OF assms] by blast+
    then show ?thesis using Cons.IH Cons by simp
  qed
qed

lemma py_repr_shape:
  "\<exists>q. (q = squote \<or> q = dquote) \<and> py_repr s = q # concat (map (repr_char q) s) @ [q]"
  by (simp add: py_repr_def Let_def)

lemma py_repr_prefix:
  assumes "py_repr s @ x = py_repr t @ y"
  shows "s = t \<and> x = y"
proof -
  obtain q where q: "q = squote \<or> q = dquote" "py_repr s = q # concat (map (repr_char q) s) @ [q]"
    using py_repr_shape by blast
  obtain q' where q': "q' = squote \<or> q' = dquote" "py_repr t = q' # concat (map (repr_char q') t) @ [q']"
    using py_repr_shape by blast
  have e: "q = q'" using assms q(2) q'(2) by simp
  have "concat (map (repr_char q) s) @ q # x = concat (map (repr_char q) t) @ q # y"
    using assms q(2) q'(2) e by simp
  then show ?thesis using repr_body_prefix [OF q(1)] by blast
qed

lemma py_repr_first: "\<exists>q r. (q = squote \<or> q = dquote) \<and> py_repr s = q # r"
  using py_repr_shape by fastforce


lemma str_item_prefix:
  assumes "str_item a @ x = str_item b @ y"
  shows "a = b \<and> x = y"
proof -
  have 1: "py_repr (fst a) @ ('': '' @ py_repr (snd a) @ x) = py_repr (fst b) @ ('': '' @ py_repr (snd b) @ y)"
    using assms by (simp add: str_item_def)
  have k: "fst a = fst b" and r: "'': '' @ py_repr (snd a) @ x = '': '' @ py_repr (snd b) @ y"
    using py_repr_prefix [OF 1] by blast+
  have "py_repr (snd a) @ x = py_repr (snd b) @ y" using r by simp
  then have "snd a = snd b" "x = y" using py_repr_prefix by blast+
  then show ?thesis using k by (simp add: prod_eq_iff)
qed

lemma str_item_first: "\<exists>q r. (q = squote \<or> q = dquote) \<and> str_item a = q # r"
  using py_repr_first [of "fst a"] by (auto simp: str_item_def)

lemma join_Cons: "join sep (x # xs) = x @ (if xs = [] then [] else sep @ join sep xs)"
  by (cases xs) simp_all

lemma brace_not_quote [simp]:
  "squote \<noteq> CHR ''}''" "dquote \<noteq> CHR ''}''" "squote \<noteq> CHR '',''" "dquote \<noteq> CHR '',''"
  by (simp_all add: squote_def dquote_def)

lemma items_not_brace:
  "join '', '' (map str_item (b # q)) @ z \<noteq> CHR ''}'' # x"
  using str_item_first [of b] by (auto simp: join_Cons)

lemma join_items_prefix:
  "join '', '' (map str_item p) @ CHR ''}'' # x = join '', '' (map str_item q) @ CHR ''}'' # y \<Longrightarrow>
   p = q \<and> x = y"
proof (induction p arbitrary: q)
  case Nil
  show ?case
  proof (cases q)
    case Nil
    then show ?thesis using Nil.prems by simp
  next
    case (Cons b q')
    then show ?thesis using Nil.prems items_not_brace [of b q' "CHR ''}'' # y" x] by simp
  qed
next
  case (Cons a p')
  show ?case
  proof (cases q)
    case Nil
    then show ?thesis using Cons.prems items_not_brace [of a p' "CHR ''}'' # x" y] by simp
  next
    case (Cons b q')
    let ?tp = "(if p' = [] then [] else '', '' @ join '', '' (map str_item p')) @ CHR ''}'' # x"
    let ?tq = "(if q' = [] then [] else '', '' @ join '', '' (map str_item q')) @ CHR ''}'' # y"
    have "str_item a @ ?tp = str_item b @ ?tq"
      using Cons.prems Cons by (simp add: join_Cons)
    then have ab: "a = b" and t: "?tp = ?tq" using str_item_prefix by blast+
    have "p' = q' \<and> x = y"
    proof (cases "p' = []"; cases "q' = []")
      assume "p' = []" "q' = []"
      then show ?thesis using t by simp
    next
      assume "p' = []" "q' \<noteq> []"
      then show ?thesis using t by simp
    next
      assume "p' \<noteq> []" "q' = []"
      then show ?thesis using t by simp
    next
      assume "p' \<noteq> []" "q' \<noteq> []"
      then have "join '', '' (map str_item p') @ CHR ''}'' # x =
                 join '', '' (map str_item q') @ CHR ''}'' # y"
        using t by simp
      then show ?thesis using Cons.IH by blast
    qed
    then show ?thesis using ab Cons by simp
  qed
qed

lemma str_dict_inj: "str_dict p = str_dict q \<Longrightarrow> p = q"
  using join_items_prefix [of p "[]" q "[]"] by (simp add: str_dict_def)

text \<open>
  Claim C3, as amended. The cache key is \<^verbatim>\<open>api:\<close>, the endpoint name, a colon and the
  decimal hash of \<^verbatim>\<open>str(params)\<close>, the rendering of the parameter dictionary that lists
  its items in insertion order (the parameters are not sorted). The rendering
  determines the dictionary and its order: two parameter dictionaries render equally
  only when they hold the same items in the same order, so the same items in another
  order render differently. Within one process and for one endpoint two parameter
  dictionaries get the same key exactly when the hashes of their renderings agree:
  the same items in the same order always do, and dictionaries that differ in order
  or in a value get different keys whenever the hash tells their renderings apart.
\<close>

theorem cache_key_follows_rendering:
  "get_cache_key w endpoint p = ''api:'' @ endpoint @ '':'' @ str_int (py_hash w (str_dict p)) \<and>
   str_dict p = ''{'' @ join '', '' (map (\<lambda>(k, v). py_repr k @ '': '' @ py_repr v) p) @ ''}'' \<and>
   (str_dict p = str_dict q) = (p = q) \<and>
   (set p = set q \<and> p \<noteq> q \<longrightarrow> str_dict p \<noteq> str_dict q) \<and>
   (get_cache_key w endpoint p = get_cache_key w endpoint q) =
     (py_hash w (str_dict p) = py_hash w (str_dict q)) \<and>
   (p \<noteq> q \<and> py_hash w (str_dict p) \<noteq> py_hash w (str_dict q) \<longrightarrow>
      get_cache_key w endpoint p \<noteq> get_cache_key w endpoint q)"
proof -
  have f: "str_item = (\<lambda>(k, v). py_repr k @ '': '' @ py_repr v)"
    by (auto simp: str_item_def fun_eq_iff)
  have 1: "str_dict p = ''{'' @ join '', '' (map (\<lambda>(k, v). py_repr k @ '': '' @ py_repr v) p) @ ''}''"
    unfolding f [symmetric] by (simp add: str_dict_def)
  have 2: "(str_dict p = str_dict q) = (p = q)" using str_dict_inj by auto
  have 3: "(get_cache_key w endpoint p = get_cache_key w endpoint q) =
     (py_hash w (str_dict p) = py_hash w (str_dict q))"
    using str_int_inj by (auto simp: get_cache_key_def)
  show ?thesis using 1 2 3 by (simp add: get_cache_key_def)
qed

lemma str_dict_size_interval:
  "str_dict [(''size'', ''5''), (''interval'', ''day'')] =
     ''{'' @ [squote] @ ''size'' @ [squote] @ '': '' @ [squote] @ ''5'' @ [squote] @ '', '' @
     [squote] @ ''interval'' @ [squote] @ '': '' @ [squote] @ ''day'' @ [squote] @ ''}''"
  by (simp add: str_dict_def str_item_def py_repr_def repr_char_def printable_def squote_def dquote_def bslash_def Let_def)



lemma poly_hash_a:
  "poly_hash (str_dict [(''size'', ''5''), (''interval'', ''day'')]) = 55690843"
  by (simp add: str_dict_size_interval poly_hash_def squote_def)

lemma poly_hash_b:
  "poly_hash (str_dict [(''interval'', ''day''), (''size'', ''5'')]) = 684328357"
  by (simp add: str_dict_def str_item_def py_repr_def repr_char_def printable_def squote_def dquote_def bslash_def Let_def
      poly_hash_def)

theorem cache_key_follows_rendering_witness:
  "set [(''size'', ''5''), (''interval'', ''day'')] = set [(''interval'', ''day''), (''size'', ''5'')] \<and>
   [(''size'', ''5''), (''interval'', ''day'')] \<noteq> [(''interval'', ''day''), (''size'', ''5'')] \<and>
   str_dict [(''size'', ''5''), (''interval'', ''day'')] \<noteq>
     str_dict [(''interval'', ''day''), (''size'', ''5'')] \<and>
   get_cache_key test_world ''top_orgs'' [(''size'', ''5''), (''interval'', ''day'')] =
     ''api:top_orgs:'' @ str_int 55690843"
proof -
  have s: "set [(''size'', ''5''), (''interval'', ''day'')] = set [(''interval'', ''day''), (''size'', ''5'')]"
    by auto
  have n: "[(''size'', ''5''), (''interval'', ''day'')] \<noteq> [(''interval'', ''day''), (''size'', ''5'')]"
    by simp
  have h: "py_hash test_world = poly_hash" by (simp add: test_world_def)
  note T = cache_key_follows_rendering [of test_world "''top_orgs''" "[(''size'', ''5''), (''interval'', ''day'')]"
        "[(''interval'', ''day''), (''size'', ''5'')]"]
  have a: "str_dict [(''size'', ''5''), (''interval'', ''day'')] \<noteq>
     str_dict [(''interval'', ''day''), (''size'', ''5'')]"
    using T s n by blast
  have "get_cache_key test_world ''top_orgs'' [(''size'', ''5''), (''interval'', ''day'')] =
     ''api:'' @ ''top_orgs'' @ '':'' @
       str_int (py_hash test_world (str_dict [(''size'', ''5''), (''interval'', ''day'')]))"
    using T by blast
  then have b: "get_cache_key test_world ''top_orgs'' [(''size'', ''5''), (''interval'', ''day'')] =
     ''api:top_orgs:'' @ str_int 55690843"
    by (simp add: h poly_hash_a)
  show ?thesis using s n a b by blast
qed

theorem cache_key_order_counterexample:
  "set [(''size'', ''5''), (''interval'', ''day'')] = set [(''interval'', ''day''), (''size'', ''5'')] \<and>
   str_dict [(''size'', ''5''), (''interval'', ''day'')] \<noteq>
     str_dict [(''interval'', ''day''), (''size'', ''5'')] \<and>
   get_cache_key test_world ''top_orgs'' [(''size'', ''5''), (''interval'', ''day'')] \<noteq>
     get_cache_key test_world ''top_orgs'' [(''interval'', ''day''), (''size'', ''5'')]"
proof -
  have h: "py_hash test_world = poly_hash" by (simp add: test_world_def)
  have d: "str_dict [(''size'', ''5''), (''interval'', ''day'')] \<noteq>
     str_dict [(''interval'', ''day''), (''size'', ''5'')]"
    using poly_hash_a poly_hash_b by auto
  have k: "get_cache_key test_world ''top_orgs'' [(''size'', ''5''), (''interval'', ''day'')] \<noteq>
     get_cache_key test_world ''top_orgs'' [(''interval'', ''day''), (''size'', ''5'')]"
  proof
    assume "get_cache_key test_world ''top_orgs'' [(''size'', ''5''), (''interval'', ''day'')] =
     get_cache_key test_world ''top_orgs'' [(''interval'', ''day''), (''size'', ''5'')]"
    then have "str_int 55690843 = str_int 684328357"
      by (simp add: get_cache_key_def h poly_hash_a poly_hash_b)
    then show False using str_int_inj by fastforce
  qed
  show ?thesis using d k by auto
qed


section \<open>Properties of ingestion\<close>


lemma valid_ingest_process:
  assumes "es w = Some client" "valid_ingest req kvs"
  shows "process_report w req =
     (let d = stamp w kvs; idx = index_name w; w1 = log_effect (ESIndex idx (JObj d)) w
      in case es_index client idx (JObj d) of
           Inl e \<Rightarrow> (handle_all_exceptions e, w1)
         | Inr result \<Rightarrow>
             (case clear_caches w1 of
                (Some e, w2) \<Rightarrow> (handle_all_exceptions e, w2)
              | (None, w2) \<Rightarrow>
                  (case report_domain d of
                     Inl e \<Rightarrow> (handle_all_exceptions e, w2)
                   | Inr dm \<Rightarrow>
                       (jsonify (success_body result),
                        emit_live_update w2 ''new_report''
                          (JObj [(''id'', JStr (res_id result)),
                                 (''org_name'', (case dict_get d ''org_name'' of
                                                   None \<Rightarrow> JNull | Some v \<Rightarrow> v)),
                                 (''domain'', dm),
                                 (''timestamp'', JStr (isoformat w (utcnow w)))])))))"
proof -
  have "data req \<noteq> []" using assms(2) by (auto simp: valid_ingest_def bytes_strip_def)
  then show ?thesis using assms by (simp add: process_report_def valid_ingest_def)
qed

lemma invalid_ingest_trace:
  assumes "\<not> (\<exists>client kvs. es w = Some client \<and> valid_ingest req kvs)"
  shows "snd (process_report w req) = w"
  using assms
  by (auto simp: process_report_def valid_ingest_def bytes_strip_def
      split: option.splits json.splits)

lemma clear_caches_trace:
  "\<exists>xs. trace (snd (clear_caches w)) = trace w @ xs \<and> es (snd (clear_caches w)) = es w"
  by (auto simp: clear_caches_def Let_def log_effect_def split: option.splits)

lemma emit_trace:
  "trace (emit_live_update w t d) = trace w @ [SocketEmit ''live_update''
      (JObj [(''type'', JStr t), (''data'', d), (''timestamp'', JStr (isoformat w (utcnow w)))])]"
  by (simp add: emit_live_update_def Let_def log_effect_def split: option.splits)

lemma process_report_new_effects:
  assumes "es w = Some client" "valid_ingest req kvs"
  shows "\<exists>rest. new_effects w (snd (process_report w req)) =
           ESIndex (index_name w) (JObj (stamp w kvs)) # rest \<and>
           (rest \<noteq> [] \<longrightarrow> (\<exists>result. es_index client (index_name w) (JObj (stamp w kvs)) = Inr result))"
proof (cases "es_index client (index_name w) (JObj (stamp w kvs))")
  case (Inl e)
  then show ?thesis
    using valid_ingest_process [OF assms] by (simp add: Let_def new_effects_def log_effect_def)
next
  case (Inr result)
  let ?w1 = "log_effect (ESIndex (index_name w) (JObj (stamp w kvs))) w"
  obtain xs where xs: "trace (snd (clear_caches ?w1)) = trace ?w1 @ xs"
    using clear_caches_trace by blast
  obtain eo w2 where c: "clear_caches ?w1 = (eo, w2)" by (cases "clear_caches ?w1")
  have t2: "trace w2 = trace w @ ESIndex (index_name w) (JObj (stamp w kvs)) # xs"
    using xs c by (simp add: log_effect_def)
  show ?thesis
    using valid_ingest_process [OF assms] Inr c t2
    by (auto simp: Let_def new_effects_def emit_trace split: option.splits sum.splits)
qed

lemma process_report_order:
  "list_ex side_effect (new_effects w (snd (process_report w req))) \<longrightarrow>
   write_committed w (new_effects w (snd (process_report w req)))"
proof (cases "\<exists>client kvs. es w = Some client \<and> valid_ingest req kvs")
  case False
  then show ?thesis using invalid_ingest_trace [OF False] by (simp add: new_effects_def)
next
  case True
  then obtain client kvs where a: "es w = Some client" "valid_ingest req kvs" by blast
  obtain rest where r: "new_effects w (snd (process_report w req)) =
           ESIndex (index_name w) (JObj (stamp w kvs)) # rest"
     "rest \<noteq> [] \<longrightarrow> (\<exists>result. es_index client (index_name w) (JObj (stamp w kvs)) = Inr result)"
    using process_report_new_effects [OF a] by blast
  show ?thesis using r a by (cases rest) auto
qed

lemma write_failure:
  assumes "es w = Some client" "valid_ingest req kvs"
    and "es_index client (index_name w) (JObj (stamp w kvs)) = Inl e"
  shows "process_report w req =
           (handle_all_exceptions e, log_effect (ESIndex (index_name w) (JObj (stamp w kvs))) w)"
  using valid_ingest_process [OF assms(1,2)] assms(3) by (simp add: Let_def)


lemma clear_caches_quiet:
  "fst (clear_caches w) = None \<or> (\<exists>r e. redis_client w = Some r \<and> r_raises r = Some e)"
  by (auto simp: clear_caches_def Let_def split: option.splits)

lemma clear_caches_keeps [simp]:
  "emitted (snd (clear_caches w)) = emitted w" "emit_raises (snd (clear_caches w)) = emit_raises w"
  "isoformat (snd (clear_caches w)) = isoformat w" "utcnow (snd (clear_caches w)) = utcnow w"
  by (auto simp: clear_caches_def Let_def log_effect_def split: option.splits)

lemma clear_caches_ok:
  assumes "case redis_client w of None \<Rightarrow> True | Some r \<Rightarrow> r_raises r = None"
  shows "fst (clear_caches w) = None"
  using assms clear_caches_quiet [of w] by (auto split: option.splits)

lemma stamp_keeps_policy:
  "dict_get (stamp w kvs) ''policy_published'' = dict_get kvs ''policy_published''"
  by (simp add: stamp_def dict_get_dict_set)

lemma report_domain_ok:
  assumes "case dict_get kvs ''policy_published'' of None \<Rightarrow> True | Some (JObj p) \<Rightarrow> True
           | Some other \<Rightarrow> False"
  shows "\<exists>dm. report_domain (stamp w kvs) = Inr dm"
  using assms by (auto simp: report_domain_def stamp_keeps_policy split: option.splits json.splits)

lemma emit_failure_swallowed:
  "emit_raises w = Some e \<Longrightarrow>
   emit_live_update w t d =
     log_effect (SocketEmit ''live_update''
       (JObj [(''type'', JStr t), (''data'', d), (''timestamp'', JStr (isoformat w (utcnow w)))])) w"
  by (simp add: emit_live_update_def Let_def)

lemma emit_emitted:
  "emitted (emit_live_update w t d) =
     (if emit_raises w = None
      then emitted w @ [JObj [(''type'', JStr t), (''data'', d),
                              (''timestamp'', JStr (isoformat w (utcnow w)))]]
      else emitted w)"
  by (auto simp: emit_live_update_def Let_def log_effect_def)

text \<open>
  Claim C10, as amended. For every ingest request whose body is a non-empty JSON object
  with \<^verbatim>\<open>policy_published\<close> absent or an object, whose document write succeeds and
  whose cache flush raises nothing, the handler answers 200 with the success body and
  the storage id whether or not emitting the live update fails: when the emit raises,
  no event is delivered and the answer is the same. \<^verbatim>\<open>emit_live_update\<close> returns to its
  caller in every case (it has no exceptional result); a raising emit leaves only the
  attempted call behind.
\<close>

theorem ingest_succeeds_despite_emit_failure:
  assumes "es w = Some client" and "valid_ingest req kvs"
    and "es_index client (index_name w) (JObj (stamp w kvs)) = Inr result"
    and "case redis_client w of None \<Rightarrow> True | Some r \<Rightarrow> r_raises r = None"
    and "case dict_get kvs ''policy_published'' of None \<Rightarrow> True | Some (JObj p) \<Rightarrow> True
         | Some other \<Rightarrow> False"
  shows "fst (process_report w req) =
           (200, JObj [(''success'', JBool True), (''id'', JStr (res_id result)),
                       (''index'', JStr (res_index result))]) \<and>
         (emit_raises w \<noteq> None \<longrightarrow> emitted (snd (process_report w req)) = emitted w) \<and>
         (emit_raises w = None \<longrightarrow>
            length (emitted (snd (process_report w req))) = length (emitted w) + 1) \<and>
         (emit_raises w = Some e \<longrightarrow>
            emit_live_update w t d =
              log_effect (SocketEmit ''live_update''
                (JObj [(''type'', JStr t), (''data'', d),
                       (''timestamp'', JStr (isoformat w (utcnow w)))])) w)"
proof -
  let ?w1 = "log_effect (ESIndex (index_name w) (JObj (stamp w kvs))) w"
  have r1: "case redis_client ?w1 of None \<Rightarrow> True | Some r \<Rightarrow> r_raises r = None"
    using assms(4) by simp
  obtain w2 where c: "clear_caches ?w1 = (None, w2)"
    using clear_caches_ok [OF r1] by (cases "clear_caches ?w1") auto
  have k: "emitted w2 = emitted w" "emit_raises w2 = emit_raises w"
    using clear_caches_keeps(1,2) [of ?w1] c by simp_all
  obtain dm where dm: "report_domain (stamp w kvs) = Inr dm"
    using report_domain_ok [OF assms(5)] by blast
  have p: "process_report w req =
     (jsonify (success_body result),
      emit_live_update w2 ''new_report''
        (JObj [(''id'', JStr (res_id result)),
               (''org_name'', (case dict_get (stamp w kvs) ''org_name'' of
                                 None \<Rightarrow> JNull | Some v \<Rightarrow> v)),
               (''domain'', dm),
               (''timestamp'', JStr (isoformat w (utcnow w)))]))"
    using valid_ingest_process [OF assms(1,2)] assms(3) c dm by (simp add: Let_def)
  show ?thesis
    using p k emit_failure_swallowed [of w e t d]
    by (auto simp: jsonify_def success_body_def emit_emitted)
qed

lemma valid_test_report:
  "valid_ingest (post_request (JObj kvs)) kvs = (kvs \<noteq> [])"
  by (simp add: valid_ingest_def post_request_def bytes_strip_def)

lemma mock_index: "es_index mock_elasticsearch i d = Inr mock_index_result"
  by (simp add: mock_elasticsearch_def)

theorem ingest_succeeds_despite_emit_failure_witness:
  "emit_raises (test_world\<lparr>emit_raises := Some connection_error\<rparr>) \<noteq> None \<and>
   fst (process_report (test_world\<lparr>emit_raises := Some connection_error\<rparr>) (post_request test_report)) =
     (200, JObj [(''success'', JBool True), (''id'', JStr ''new-doc-id''),
                 (''index'', JStr ''parsedmarc-aggregate-2024.01.01'')]) \<and>
   emitted (snd (process_report (test_world\<lparr>emit_raises := Some connection_error\<rparr>)
                  (post_request test_report))) = []"
proof -
  let ?w = "test_world\<lparr>emit_raises := Some connection_error\<rparr>"
  let ?kvs = "[(''org_name'', JStr ''Test Organization''),
           (''policy_published'', JObj [(''domain'', JStr ''test.com'')]),
           (''records'', JList [])]"
  have a1: "es ?w = Some mock_elasticsearch" by (simp add: test_world_def)
  have a2: "valid_ingest (post_request test_report) ?kvs"
    by (simp add: test_report_def valid_test_report)
  have a4: "case redis_client ?w of None \<Rightarrow> True | Some r \<Rightarrow> r_raises r = None"
    by (simp add: test_world_def mock_redis_def)
  have a5: "case dict_get ?kvs ''policy_published'' of None \<Rightarrow> True | Some (JObj p) \<Rightarrow> True
         | Some other \<Rightarrow> False"
    by (simp add: dict_get_def)
  have e: "emitted ?w = []" "emit_raises ?w = Some connection_error" by (simp_all add: test_world_def)
  show ?thesis
    using ingest_succeeds_despite_emit_failure [OF a1 a2 mock_index a4 a5] e
    by (simp add: mock_index_result_def)
qed

theorem ingest_after_write_counterexample:
  "write_committed (test_world\<lparr>redis_client := Some \<lparr>r_store = [], r_raises = Some connection_error\<rparr>\<rparr>)
     (new_effects (test_world\<lparr>redis_client := Some \<lparr>r_store = [], r_raises = Some connection_error\<rparr>\<rparr>)
        (snd (process_report
               (test_world\<lparr>redis_client := Some \<lparr>r_store = [], r_raises = Some connection_error\<rparr>\<rparr>)
               (post_request test_report)))) \<and>
   fst (fst (process_report
               (test_world\<lparr>redis_client := Some \<lparr>r_store = [], r_raises = Some connection_error\<rparr>\<rparr>)
               (post_request test_report))) = 500 \<and>
   write_committed test_world
     (new_effects test_world
        (snd (process_report test_world
               (post_request (JObj [(''org_name'', JStr ''X''), (''policy_published'', JNull)]))))) \<and>
   fst (fst (process_report test_world
               (post_request (JObj [(''org_name'', JStr ''X''), (''policy_published'', JNull)])))) = 500"
proof -
  let ?w = "test_world\<lparr>redis_client := Some \<lparr>r_store = [], r_raises = Some connection_error\<rparr>\<rparr>"
  let ?kvs = "[(''org_name'', JStr ''Test Organization''),
           (''policy_published'', JObj [(''domain'', JStr ''test.com'')]),
           (''records'', JList [])]"
  let ?kvs2 = "[(''org_name'', JStr ''X''), (''policy_published'', JNull)]"
  have a1: "es ?w = Some mock_elasticsearch" "es test_world = Some mock_elasticsearch"
    by (simp_all add: test_world_def)
  have a2: "valid_ingest (post_request test_report) ?kvs"
    by (simp add: test_report_def valid_test_report)
  have a3: "valid_ingest (post_request (JObj ?kvs2)) ?kvs2" by (simp add: valid_test_report)
  have c1: "clear_caches (log_effect x ?w) = (Some connection_error, log_effect (CacheKeys ''api:*'') (log_effect x ?w))" for x
    by (simp add: clear_caches_def Let_def)
  have c2: "clear_caches (log_effect x test_world) = (None, log_effect (CacheKeys ''api:*'') (log_effect x test_world))" for x
    by (simp add: clear_caches_def Let_def test_world_def mock_redis_def log_effect_def)
  have d2: "report_domain (stamp test_world ?kvs2) = Inl AttributeError"
    unfolding report_domain_def stamp_keeps_policy by (simp add: dict_get_def)
  have h: "handle_all_exceptions connection_error = (500, error_body ''Internal server error'')"
    "handle_all_exceptions AttributeError = (500, error_body ''Internal server error'')"
    by (simp_all add: handle_all_exceptions_def connection_error_def)
  have p1: "process_report ?w (post_request test_report) =
      ((500, error_body ''Internal server error''),
       log_effect (CacheKeys ''api:*'') (log_effect (ESIndex (index_name ?w) (JObj (stamp ?w ?kvs))) ?w))"
    using valid_ingest_process [OF a1(1) a2] by (simp add: Let_def mock_index c1 h)
  have p2: "process_report test_world (post_request (JObj ?kvs2)) =
      ((500, error_body ''Internal server error''),
       log_effect (CacheKeys ''api:*'') (log_effect (ESIndex (index_name test_world) (JObj (stamp test_world ?kvs2))) test_world))"
    using valid_ingest_process [OF a1(2) a3] by (simp add: Let_def mock_index c2 d2 h)
  show ?thesis
    unfolding p1 p2 by (simp add: new_effects_def a1 mock_index)
qed


lemma clear_caches_logs:
  "redis_client (snd (clear_caches w)) \<noteq> redis_client w \<Longrightarrow>
   list_ex side_effect (new_effects w (snd (clear_caches w)))"
  by (auto simp: clear_caches_def Let_def log_effect_def new_effects_def split: option.splits if_splits)

lemma process_report_state_change:
  assumes "redis_client (snd (process_report w req)) \<noteq> redis_client w \<or>
           emitted (snd (process_report w req)) \<noteq> emitted w"
  shows "list_ex side_effect (new_effects w (snd (process_report w req)))"
proof (cases "\<exists>client kvs. es w = Some client \<and> valid_ingest req kvs")
  case False
  then show ?thesis using invalid_ingest_trace [OF False] assms by simp
next
  case True
  then obtain client kvs where a: "es w = Some client" "valid_ingest req kvs" by blast
  let ?w1 = "log_effect (ESIndex (index_name w) (JObj (stamp w kvs))) w"
  show ?thesis
  proof (cases "es_index client (index_name w) (JObj (stamp w kvs))")
    case (Inl e)
    then show ?thesis using write_failure [OF a Inl] assms by simp
  next
    case (Inr result)
    obtain eo w2 where c: "clear_caches ?w1 = (eo, w2)" by (cases "clear_caches ?w1")
    have "redis_client ?w1 = Some r \<Longrightarrow> list_ex side_effect (new_effects w w2)" for r
      using c by (auto simp: clear_caches_def Let_def log_effect_def new_effects_def
          split: option.splits if_splits)
    moreover have "redis_client ?w1 = None \<Longrightarrow> w2 = ?w1 \<and> eo = None"
      using c by (auto simp: clear_caches_def)
    ultimately have k: "list_ex side_effect (new_effects w w2) \<or> (w2 = ?w1 \<and> eo = None)"
      by (cases "redis_client ?w1") auto
    have t: "length (trace w) \<le> length (trace w2)"
      using clear_caches_trace [of ?w1] c by auto
    have x: "list_ex side_effect (new_effects w (emit_live_update w2 t' d'))" for t' d'
      using t by (simp add: new_effects_def emit_trace)
    show ?thesis
    proof (cases eo)
      case (Some e)
      then have "process_report w req = (handle_all_exceptions e, w2)"
        using valid_ingest_process [OF a] Inr c by (simp add: Let_def)
      then show ?thesis using k Some by auto
    next
      case None
      show ?thesis
      proof (cases "report_domain (stamp w kvs)")
        case (Inl e)
        then have p: "process_report w req = (handle_all_exceptions e, w2)"
          using valid_ingest_process [OF a] Inr c None by (simp add: Let_def)
        show ?thesis using k p assms by auto
      next
        case (Inr dm)
        then show ?thesis
          using valid_ingest_process [OF a] \<open>es_index client (index_name w) (JObj (stamp w kvs)) = Inr result\<close>
            c None x by (simp add: Let_def)
      qed
    qed
  qed
qed

text \<open>
  Claim C6. The side effects of ingestion are ordered after the write: whenever a
  request flushed the cache or attempted a broadcast, or left the cache or the
  delivered events changed, the first call it made to the outside was the document
  write and the search engine answered it with a result. When the write of an
  accepted request raises, the answer is that of the handler for uncaught exceptions,
  the write is the only call made, and the cache and the delivered events are
  untouched; for every exception that is not a bad-request error (the client
  libraries raise none) that answer is 500 with \<^verbatim>\<open>Internal server error\<close>.
\<close>

theorem ingestion_side_effects_after_write:
  "(list_ex side_effect (new_effects w (snd (process_report w req))) \<or>
    redis_client (snd (process_report w req)) \<noteq> redis_client w \<or>
    emitted (snd (process_report w req)) \<noteq> emitted w \<longrightarrow>
      write_committed w (new_effects w (snd (process_report w req)))) \<and>
   (es w = Some client \<and> valid_ingest req kvs \<and>
    es_index client (index_name w) (JObj (stamp w kvs)) = Inl e \<longrightarrow>
      fst (process_report w req) = handle_all_exceptions e \<and>
      new_effects w (snd (process_report w req)) = [ESIndex (index_name w) (JObj (stamp w kvs))] \<and>
      redis_client (snd (process_report w req)) = redis_client w \<and>
      emitted (snd (process_report w req)) = emitted w \<and>
      (\<not> is_BadRequest e \<and> exn_code e \<noteq> Some 400 \<longrightarrow>
         fst (process_report w req) = (500, JObj [(''error'', JStr ''Internal server error'')])))"
proof -
  have 1: "list_ex side_effect (new_effects w (snd (process_report w req))) \<or>
    redis_client (snd (process_report w req)) \<noteq> redis_client w \<or>
    emitted (snd (process_report w req)) \<noteq> emitted w \<longrightarrow>
      write_committed w (new_effects w (snd (process_report w req)))"
    using process_report_order [of w req] process_report_state_change [of w req] by blast
  have 2: "es w = Some client \<and> valid_ingest req kvs \<and>
    es_index client (index_name w) (JObj (stamp w kvs)) = Inl e \<longrightarrow>
      fst (process_report w req) = handle_all_exceptions e \<and>
      new_effects w (snd (process_report w req)) = [ESIndex (index_name w) (JObj (stamp w kvs))] \<and>
      redis_client (snd (process_report w req)) = redis_client w \<and>
      emitted (snd (process_report w req)) = emitted w \<and>
      (\<not> is_BadRequest e \<and> exn_code e \<noteq> Some 400 \<longrightarrow>
         fst (process_report w req) = (500, JObj [(''error'', JStr ''Internal server error'')]))"
  proof (intro impI, elim conjE)
    assume a: "es w = Some client" "valid_ingest req kvs"
      "es_index client (index_name w) (JObj (stamp w kvs)) = Inl e"
    show "fst (process_report w req) = handle_all_exceptions e \<and>
      new_effects w (snd (process_report w req)) = [ESIndex (index_name w) (JObj (stamp w kvs))] \<and>
      redis_client (snd (process_report w req)) = redis_client w \<and>
      emitted (snd (process_report w req)) = emitted w \<and>
      (\<not> is_BadRequest e \<and> exn_code e \<noteq> Some 400 \<longrightarrow>
         fst (process_report w req) = (500, JObj [(''error'', JStr ''Internal server error'')]))"
      using write_failure [OF a]
      by (simp add: new_effects_def handle_all_exceptions_def error_body_def)
  qed
  show ?thesis using 1 2 by blast
qed

lemma test_ingest_emits:
  "length (emitted (snd (process_report test_world (post_request test_report)))) = 1"
proof -
  let ?kvs = "[(''org_name'', JStr ''Test Organization''),
           (''policy_published'', JObj [(''domain'', JStr ''test.com'')]),
           (''records'', JList [])]"
  have a1: "es test_world = Some mock_elasticsearch" by (simp add: test_world_def)
  have a2: "valid_ingest (post_request test_report) ?kvs"
    by (simp add: test_report_def valid_test_report)
  have c: "clear_caches (log_effect x test_world) =
             (None, log_effect (CacheKeys ''api:*'') (log_effect x test_world))" for x
    by (simp add: clear_caches_def Let_def test_world_def mock_redis_def log_effect_def)
  have d: "report_domain (stamp test_world ?kvs) = Inr (JStr ''test.com'')"
    unfolding report_domain_def stamp_keeps_policy by (simp add: dict_get_def)
  have e: "emit_raises test_world = None" "emitted test_world = []"
    by (simp_all add: test_world_def)
  show ?thesis
    using valid_ingest_process [OF a1 a2]
    by (simp add: Let_def mock_index c d emit_emitted e)
qed

theorem ingestion_side_effects_after_write_witness:
  "fst (process_report (test_world\<lparr>es := Some unreachable_elasticsearch\<rparr>) (post_request test_report)) =
     (500, JObj [(''error'', JStr ''Internal server error'')]) \<and>
   redis_client (snd (process_report (test_world\<lparr>es := Some unreachable_elasticsearch\<rparr>)
                       (post_request test_report))) = Some mock_redis \<and>
   emitted (snd (process_report (test_world\<lparr>es := Some unreachable_elasticsearch\<rparr>)
                       (post_request test_report))) = [] \<and>
   length (emitted (snd (process_report test_world (post_request test_report)))) = 1 \<and>
   write_committed test_world
     (new_effects test_world (snd (process_report test_world (post_request test_report))))"
proof -
  let ?w = "test_world\<lparr>es := Some unreachable_elasticsearch\<rparr>"
  let ?kvs = "[(''org_name'', JStr ''Test Organization''),
           (''policy_published'', JObj [(''domain'', JStr ''test.com'')]),
           (''records'', JList [])]"
  have a1: "es ?w = Some unreachable_elasticsearch" by (simp add: test_world_def)
  have a2: "valid_ingest (post_request test_report) ?kvs"
    by (simp add: test_report_def valid_test_report)
  have a3: "es_index unreachable_elasticsearch i d = Inl connection_error" for i d
    by (simp add: unreachable_elasticsearch_def)
  have f: "\<not> is_BadRequest connection_error" "exn_code connection_error \<noteq> Some 400"
    by (simp_all add: connection_error_def)
  have s: "redis_client ?w = Some mock_redis" "emitted ?w = []" "emitted test_world = []"
    by (simp_all add: test_world_def)
  have ok: "emitted (snd (process_report test_world (post_request test_report))) \<noteq> emitted test_world"
    using test_ingest_emits s(3) by auto
  have f1: "fst (process_report ?w (post_request test_report)) =
              (500, JObj [(''error'', JStr ''Internal server error'')]) \<and>
            redis_client (snd (process_report ?w (post_request test_report))) = redis_client ?w \<and>
            emitted (snd (process_report ?w (post_request test_report))) = emitted ?w"
    using ingestion_side_effects_after_write [of ?w "post_request test_report"
        unreachable_elasticsearch ?kvs connection_error, THEN conjunct2] a1 a2 a3 f
    by blast
  have f2: "write_committed test_world
     (new_effects test_world (snd (process_report test_world (post_request test_report))))"
    using ingestion_side_effects_after_write [of test_world "post_request test_report", THEN conjunct1] ok
    by blast
  show ?thesis using f1 f2 s test_ingest_emits by simp
qed


end
